theory Spec2Isabelle
  imports Main "HOL-Library.Sublist"
begin

section \<open>The file-backed collection store of server.js\<close>

text \<open>
  The server keeps three arrays (projects, carouselImages, videos) in memory, rewrites
  one JSON file per array after every mutation, and stores uploaded images in the
  directory uploads. The model below follows server.js route by route. The state of the
  process and of the disk is passed explicitly; a thrown exception is a value that
  express hands to the error handler at the end of the file.
\<close>

subsection \<open>Records of the three collections\<close>

text \<open>
  A project is \<^verbatim>\<open>{ id, title, description, imageUrls }\<close>. The fields title and
  description are copied from the request body without any check, so they can be
  undefined: \<open>None\<close>. Body fields are modelled as absent or a string.
  A carousel image is \<^verbatim>\<open>{ _id, url }\<close>, a video \<^verbatim>\<open>{ id, url, title }\<close>.
\<close>

record project =
  pid :: string
  title :: "string option"
  description :: "string option"
  imageUrls :: "string list"

record carousel_image =
  c_id :: string
  url :: string

record video =
  v_id :: string
  v_url :: string
  v_title :: string

subsection \<open>The file system\<close>

text \<open>
  A file holds either the bytes of an upload or the text
  \<^verbatim>\<open>JSON.stringify(collection, null, 2)\<close> of one of the arrays; the text is represented
  by the array it was computed from. The calls \<^verbatim>\<open>fs.unlinkSync\<close> and
  \<^verbatim>\<open>fs.writeFileSync\<close> throw when the operating system refuses them; the paths at
  which it does are part of the file system.
\<close>

datatype file_content =
    Bytes string
  | Json_projects "project list"
  | Json_carousel "carousel_image list"
  | Json_videos "video list"

record filesystem =
  contents :: "string \<rightharpoonup> file_content"
  unlink_denied :: "string set"
  write_denied :: "string set"

datatype fs_error = ENOENT | EPERM | EACCES

datatype exn = MulterError string | FsError fs_error

definition existsSync :: "filesystem \<Rightarrow> string \<Rightarrow> bool" where
  "existsSync fs p = (contents fs p \<noteq> None)"

definition unlinkSync :: "filesystem \<Rightarrow> string \<Rightarrow> fs_error + filesystem" where
  "unlinkSync fs p =
     (if contents fs p = None then Inl ENOENT
      else if p \<in> unlink_denied fs then Inl EPERM
      else Inr (fs\<lparr>contents := (contents fs)(p := None)\<rparr>))"

definition writeFileSync :: "filesystem \<Rightarrow> string \<Rightarrow> file_content \<Rightarrow> fs_error + filesystem" where
  "writeFileSync fs p c =
     (if p \<in> write_denied fs then Inl EACCES
      else Inr (fs\<lparr>contents := (contents fs)(p \<mapsto> c)\<rparr>))"

subsection \<open>Process state and environment\<close>

text \<open>
  \<open>uuid_calls\<close> counts the calls of \<^verbatim>\<open>uuidv4()\<close> made so far; the environment gives the
  token each call returns. \<^verbatim>\<open>path.extname\<close> and the parser behind \<^verbatim>\<open>new URL\<close> are
  library functions and are parameters as well, as are \<^verbatim>\<open>PORT\<close> (as it prints in a
  template string) and \<^verbatim>\<open>__dirname\<close>.
\<close>

record state =
  projects :: "project list"
  carouselImages :: "carousel_image list"
  videos :: "video list"
  disk :: filesystem
  uuid_calls :: nat

record env =
  PORT :: string
  dirname :: string
  uuidv4 :: "nat \<Rightarrow> string"
  extname :: "string \<Rightarrow> string"
  url_parses :: "string \<Rightarrow> bool"

text \<open>
  \<^verbatim>\<open>path.join(a, b)\<close>, without the normalisation of \<^verbatim>\<open>.\<close>, \<^verbatim>\<open>..\<close> and repeated
  separators that Node applies: the paths the server builds itself are
  \<^verbatim>\<open>__dirname\<close> followed by plain segments.
\<close>

definition path_join :: "string \<Rightarrow> string \<Rightarrow> string" where
  "path_join a b = a @ ''/'' @ b"

definition uploadDir :: "env \<Rightarrow> string" where
  "uploadDir e = path_join (dirname e) ''uploads''"

definition projectsDbPath :: "env \<Rightarrow> string" where
  "projectsDbPath e = path_join (dirname e) ''projects.json''"

definition carouselDbPath :: "env \<Rightarrow> string" where
  "carouselDbPath e = path_join (dirname e) ''carousel-images.json''"

definition videosDbPath :: "env \<Rightarrow> string" where
  "videosDbPath e = path_join (dirname e) ''videos.json''"

text \<open>\<^verbatim>\<open>s.replace(pat, rep)\<close> with a string pattern: the first occurrence only.\<close>

fun replace_first :: "string \<Rightarrow> string \<Rightarrow> string \<Rightarrow> string" where
  "replace_first pat rep [] = (if pat = [] then rep else [])"
| "replace_first pat rep (c # cs) =
     (if prefix pat (c # cs) then rep @ drop (length pat) (c # cs)
      else c # replace_first pat rep cs)"

definition base_url :: "env \<Rightarrow> string" where
  "base_url e = ''http://localhost:'' @ PORT e @ ''/''"

definition image_url :: "env \<Rightarrow> string \<Rightarrow> string" where
  "image_url e fname = ''http://localhost:'' @ PORT e @ ''/uploads/'' @ fname"

definition localPath :: "env \<Rightarrow> string \<Rightarrow> string" where
  "localPath e u = path_join (dirname e) (replace_first (base_url e) [] u)"

text \<open>JavaScript truthiness of a body field: undefined and the empty string are falsy.\<close>

fun truthy :: "string option \<Rightarrow> bool" where
  "truthy None = False"
| "truthy (Some v) = (v \<noteq> [])"

text \<open>\<^verbatim>\<open>Array.prototype.findIndex\<close> (None for -1) and \<^verbatim>\<open>splice(i, 1)\<close>.\<close>

fun findIndex :: "('a \<Rightarrow> bool) \<Rightarrow> 'a list \<Rightarrow> nat option" where
  "findIndex P [] = None"
| "findIndex P (x # xs) = (if P x then Some 0 else map_option Suc (findIndex P xs))"

definition splice1 :: "nat \<Rightarrow> 'a list \<Rightarrow> 'a list" where
  "splice1 i xs = take i xs @ drop (Suc i) xs"

subsection \<open>Responses\<close>

text \<open>The status code and the value handed to \<^verbatim>\<open>res.json\<close>.\<close>

datatype body =
    Projects_body "project list"
  | Project_body project
  | Updated_body string project
  | Carousel_list_body "carousel_image list"
  | Carousel_body carousel_image
  | Videos_body "video list"
  | Video_body video
  | Message_body string
  | Error_body string

datatype response = Response (status: nat) (body: body)

text \<open>The error middleware at the end of server.js.\<close>

fun error_handler :: "exn \<Rightarrow> response" where
  "error_handler (MulterError msg) = Response 400 (Error_body msg)"
| "error_handler (FsError x) = Response 500 (Error_body ''Internal Server Error'')"

subsection \<open>Saving the collections\<close>

definition saveProjects :: "env \<Rightarrow> state \<Rightarrow> fs_error + state" where
  "saveProjects e s =
     (case writeFileSync (disk s) (projectsDbPath e) (Json_projects (projects s)) of
        Inl x \<Rightarrow> Inl x
      | Inr fs \<Rightarrow> Inr (s\<lparr>disk := fs\<rparr>))"

definition saveCarouselImages :: "env \<Rightarrow> state \<Rightarrow> fs_error + state" where
  "saveCarouselImages e s =
     (case writeFileSync (disk s) (carouselDbPath e) (Json_carousel (carouselImages s)) of
        Inl x \<Rightarrow> Inl x
      | Inr fs \<Rightarrow> Inr (s\<lparr>disk := fs\<rparr>))"

definition saveVideos :: "env \<Rightarrow> state \<Rightarrow> fs_error + state" where
  "saveVideos e s =
     (case writeFileSync (disk s) (videosDbPath e) (Json_videos (videos s)) of
        Inl x \<Rightarrow> Inl x
      | Inr fs \<Rightarrow> Inr (s\<lparr>disk := fs\<rparr>))"

subsection \<open>The upload middleware\<close>

text \<open>
  \<^verbatim>\<open>multer.diskStorage\<close> with destination uploadDir and filename
  \<^verbatim>\<open>uuidv4() + path.extname(file.originalname)\<close>: each file of the request is written
  to the upload directory before the route's handler runs. Storage errors of the
  middleware itself are not modelled.
\<close>

record upload =
  originalname :: string
  bytes :: string

record stored_file =
  filename :: string

fun disk_storage :: "env \<Rightarrow> upload list \<Rightarrow> state \<Rightarrow> stored_file list \<times> state" where
  "disk_storage e [] s = ([], s)"
| "disk_storage e (u # us) s =
     (let fname = uuidv4 e (uuid_calls s) @ extname e (originalname u);
          s1 = s\<lparr>disk := (disk s)\<lparr>contents :=
                      (contents (disk s))(path_join (uploadDir e) fname \<mapsto> Bytes (bytes u))\<rparr>,
                 uuid_calls := Suc (uuid_calls s)\<rparr>;
          (fs, s2) = disk_storage e us s1
      in (\<lparr>filename = fname\<rparr> # fs, s2))"

text \<open>
  \<^verbatim>\<open>.array('images', 5)\<close> and \<^verbatim>\<open>.single('carouselImage')\<close> (a limit of one): a file
  beyond the limit is refused with a MulterError after the files before it were named
  and stored, and multer then removes what it stored.
\<close>

definition multer_array :: "env \<Rightarrow> nat \<Rightarrow> upload list \<Rightarrow> state \<Rightarrow> (exn + stored_file list) \<times> state" where
  "multer_array e maxCount ups s =
     (if maxCount < length ups
      then (Inl (MulterError ''Unexpected field''), s\<lparr>uuid_calls := uuid_calls s + maxCount\<rparr>)
      else (let (fs, s1) = disk_storage e ups s in (Inr fs, s1)))"

subsection \<open>Deleting the image files of a record\<close>

text \<open>
  The \<^verbatim>\<open>forEach\<close> over image URLs of the update and delete handlers: a missing file
  is skipped, an exception of \<^verbatim>\<open>unlinkSync\<close> ends the loop and leaves the files
  deleted so far deleted.
\<close>

fun unlink_images :: "env \<Rightarrow> string list \<Rightarrow> filesystem \<Rightarrow> fs_error option \<times> filesystem" where
  "unlink_images e [] fs = (None, fs)"
| "unlink_images e (u # us) fs =
     (if existsSync fs (localPath e u)
      then (case unlinkSync fs (localPath e u) of
              Inl x \<Rightarrow> (Some x, fs)
            | Inr fs1 \<Rightarrow> unlink_images e us fs1)
      else unlink_images e us fs)"

subsection \<open>Projects routes\<close>

definition get_projects :: "state \<Rightarrow> (exn + response) \<times> state" where
  "get_projects s = (Inr (Response 200 (Projects_body (projects s))), s)"

definition post_projects ::
  "env \<Rightarrow> string option \<Rightarrow> string option \<Rightarrow> stored_file list \<Rightarrow> state \<Rightarrow> (exn + response) \<times> state" where
  "post_projects e ttl descr files s =
     (if files = [] then (Inr (Response 400 (Error_body ''At least one image is required.'')), s)
      else
        (let newProject = \<lparr>pid = uuidv4 e (uuid_calls s), title = ttl, description = descr,
                           imageUrls = map (\<lambda>f. image_url e (filename f)) files\<rparr>;
             s1 = s\<lparr>projects := projects s @ [newProject], uuid_calls := Suc (uuid_calls s)\<rparr>
         in case saveProjects e s1 of
              Inl x \<Rightarrow> (Inl (FsError x), s1)
            | Inr s2 \<Rightarrow> (Inr (Response 201 (Project_body newProject)), s2)))"

text \<open>
  \<^verbatim>\<open>projects.find\<close> returns a reference to the first matching object of the array, so
  the assignments to its fields change the array in place, before any file is touched.
\<close>

definition update_fields :: "string option \<Rightarrow> string option \<Rightarrow> project \<Rightarrow> project" where
  "update_fields ttl descr p =
     (let p1 = (if truthy ttl then p\<lparr>title := ttl\<rparr> else p)
      in (if truthy descr then p1\<lparr>description := descr\<rparr> else p1))"

definition put_projects ::
  "env \<Rightarrow> string \<Rightarrow> string option \<Rightarrow> string option \<Rightarrow> stored_file list \<Rightarrow> state \<Rightarrow> (exn + response) \<times> state" where
  "put_projects e i ttl descr files s =
     (case findIndex (\<lambda>p. pid p = i) (projects s) of
        None \<Rightarrow> (Inr (Response 404 (Error_body ''Project not found'')), s)
      | Some k \<Rightarrow>
          (let p2 = update_fields ttl descr (projects s ! k);
               s1 = s\<lparr>projects := (projects s)[k := p2]\<rparr>
           in if files \<noteq> [] then
                (case unlink_images e (imageUrls p2) (disk s1) of
                   (Some x, fs1) \<Rightarrow> (Inl (FsError x), s1\<lparr>disk := fs1\<rparr>)
                 | (None, fs1) \<Rightarrow>
                     (let p3 = p2\<lparr>imageUrls := map (\<lambda>f. image_url e (filename f)) files\<rparr>;
                          s2 = s1\<lparr>projects := (projects s1)[k := p3], disk := fs1\<rparr>
                      in case saveProjects e s2 of
                           Inl x \<Rightarrow> (Inl (FsError x), s2)
                         | Inr s3 \<Rightarrow>
                             (Inr (Response 200 (Updated_body ''Project updated successfully'' p3)), s3)))
              else
                (case saveProjects e s1 of
                   Inl x \<Rightarrow> (Inl (FsError x), s1)
                 | Inr s3 \<Rightarrow>
                     (Inr (Response 200 (Updated_body ''Project updated successfully'' p2)), s3))))"

definition delete_projects :: "env \<Rightarrow> string \<Rightarrow> state \<Rightarrow> (exn + response) \<times> state" where
  "delete_projects e i s =
     (case findIndex (\<lambda>p. pid p = i) (projects s) of
        None \<Rightarrow> (Inr (Response 404 (Error_body ''Project not found'')), s)
      | Some projectIndex \<Rightarrow>
          (case unlink_images e (imageUrls (projects s ! projectIndex)) (disk s) of
             (Some x, fs1) \<Rightarrow> (Inl (FsError x), s\<lparr>disk := fs1\<rparr>)
           | (None, fs1) \<Rightarrow>
               (let s1 = s\<lparr>projects := splice1 projectIndex (projects s), disk := fs1\<rparr>
                in case saveProjects e s1 of
                     Inl x \<Rightarrow> (Inl (FsError x), s1)
                   | Inr s2 \<Rightarrow> (Inr (Response 200 (Message_body ''Project deleted successfully'')), s2))))"

subsection \<open>Carousel routes\<close>

text \<open>
  The Delete handler guards and deletes the one file of the image as the project
  handlers do for each of theirs: the loop above on a list of one URL.
\<close>

definition get_carousel_images :: "state \<Rightarrow> (exn + response) \<times> state" where
  "get_carousel_images s = (Inr (Response 200 (Carousel_list_body (carouselImages s))), s)"

definition post_carousel_images ::
  "env \<Rightarrow> stored_file option \<Rightarrow> state \<Rightarrow> (exn + response) \<times> state" where
  "post_carousel_images e file s =
     (case file of
        None \<Rightarrow> (Inr (Response 400 (Error_body ''No image uploaded'')), s)
      | Some f \<Rightarrow>
          (let newImage = \<lparr>c_id = uuidv4 e (uuid_calls s), url = image_url e (filename f)\<rparr>;
               s1 = s\<lparr>carouselImages := carouselImages s @ [newImage],
                      uuid_calls := Suc (uuid_calls s)\<rparr>
           in case saveCarouselImages e s1 of
                Inl x \<Rightarrow> (Inl (FsError x), s1)
              | Inr s2 \<Rightarrow> (Inr (Response 201 (Carousel_body newImage)), s2)))"

definition delete_carousel_images :: "env \<Rightarrow> string \<Rightarrow> state \<Rightarrow> (exn + response) \<times> state" where
  "delete_carousel_images e i s =
     (case findIndex (\<lambda>img. c_id img = i) (carouselImages s) of
        None \<Rightarrow> (Inr (Response 404 (Error_body ''Image not found'')), s)
      | Some index \<Rightarrow>
          (case unlink_images e [url (carouselImages s ! index)] (disk s) of
             (Some x, fs1) \<Rightarrow> (Inl (FsError x), s\<lparr>disk := fs1\<rparr>)
           | (None, fs1) \<Rightarrow>
               (let s1 = s\<lparr>carouselImages := splice1 index (carouselImages s), disk := fs1\<rparr>
                in case saveCarouselImages e s1 of
                     Inl x \<Rightarrow> (Inl (FsError x), s1)
                   | Inr s2 \<Rightarrow> (Inr (Response 200 (Message_body ''Image deleted successfully'')), s2))))"

subsection \<open>Videos routes\<close>

definition get_videos :: "state \<Rightarrow> (exn + response) \<times> state" where
  "get_videos s = (Inr (Response 200 (Videos_body (videos s))), s)"

definition post_videos ::
  "env \<Rightarrow> string option \<Rightarrow> string option \<Rightarrow> state \<Rightarrow> (exn + response) \<times> state" where
  "post_videos e u ttl s =
     (if \<not> truthy u \<or> \<not> truthy ttl
      then (Inr (Response 400 (Error_body ''Both url and title are required.'')), s)
      else if \<not> url_parses e (the u)
      then (Inr (Response 400 (Error_body ''Invalid URL format.'')), s)
      else
        (let newVideo = \<lparr>v_id = uuidv4 e (uuid_calls s), v_url = the u, v_title = the ttl\<rparr>;
             s1 = s\<lparr>videos := videos s @ [newVideo], uuid_calls := Suc (uuid_calls s)\<rparr>
         in case saveVideos e s1 of
              Inl x \<Rightarrow> (Inl (FsError x), s1)
            | Inr s2 \<Rightarrow> (Inr (Response 201 (Video_body newVideo)), s2)))"

definition delete_videos :: "env \<Rightarrow> string \<Rightarrow> state \<Rightarrow> (exn + response) \<times> state" where
  "delete_videos e i s =
     (case findIndex (\<lambda>v. v_id v = i) (videos s) of
        None \<Rightarrow> (Inr (Response 404 (Error_body ''Video not found'')), s)
      | Some index \<Rightarrow>
          (let s1 = s\<lparr>videos := splice1 index (videos s)\<rparr>
           in case saveVideos e s1 of
                Inl x \<Rightarrow> (Inl (FsError x), s1)
              | Inr s2 \<Rightarrow> (Inr (Response 200 (Message_body ''Video deleted successfully'')), s2)))"

subsection \<open>Requests and dispatch\<close>

datatype request =
    GET_projects
  | POST_projects "string option" "string option" "upload list"
  | PUT_projects string "string option" "string option" "upload list"
  | DELETE_projects string
  | GET_carousel_images
  | POST_carousel_images "upload list"
  | DELETE_carousel_images string
  | GET_videos
  | POST_videos "string option" "string option"
  | DELETE_videos string

text \<open>A route runs its middleware, then its handler.\<close>

fun route :: "env \<Rightarrow> request \<Rightarrow> state \<Rightarrow> (exn + response) \<times> state" where
  "route e GET_projects s = get_projects s"
| "route e (POST_projects ttl descr ups) s =
     (case multer_array e 5 ups s of
        (Inl x, s1) \<Rightarrow> (Inl x, s1)
      | (Inr files, s1) \<Rightarrow> post_projects e ttl descr files s1)"
| "route e (PUT_projects i ttl descr ups) s =
     (case multer_array e 5 ups s of
        (Inl x, s1) \<Rightarrow> (Inl x, s1)
      | (Inr files, s1) \<Rightarrow> put_projects e i ttl descr files s1)"
| "route e (DELETE_projects i) s = delete_projects e i s"
| "route e GET_carousel_images s = get_carousel_images s"
| "route e (POST_carousel_images ups) s =
     (case multer_array e 1 ups s of
        (Inl x, s1) \<Rightarrow> (Inl x, s1)
      | (Inr files, s1) \<Rightarrow>
          post_carousel_images e (case files of [] \<Rightarrow> None | f # _ \<Rightarrow> Some f) s1)"
| "route e (DELETE_carousel_images i) s = delete_carousel_images e i s"
| "route e GET_videos s = get_videos s"
| "route e (POST_videos u ttl) s = post_videos e u ttl s"
| "route e (DELETE_videos i) s = delete_videos e i s"

text \<open>express answers a thrown exception through the error handler.\<close>

definition handle :: "env \<Rightarrow> request \<Rightarrow> state \<Rightarrow> response \<times> state" where
  "handle e r s =
     (case route e r s of
        (Inl x, s1) \<Rightarrow> (error_handler x, s1)
      | (Inr resp, s1) \<Rightarrow> (resp, s1))"

fun run :: "env \<Rightarrow> request list \<Rightarrow> state \<Rightarrow> response list \<times> state" where
  "run e [] s = ([], s)"
| "run e (r # rs) s =
     (let (resp, s1) = handle e r s; (resps, s2) = run e rs s1 in (resp # resps, s2))"

subsection \<open>The JSON file of a collection\<close>

text \<open>
  The collection a mutating request works on, the content of its JSON file on disk,
  and the text \<^verbatim>\<open>JSON.stringify\<close> gives for the array in memory.
\<close>

datatype collection = Projects | CarouselImages | Videos

fun target :: "request \<Rightarrow> collection option" where
  "target GET_projects = None"
| "target (POST_projects ttl descr ups) = Some Projects"
| "target (PUT_projects i ttl descr ups) = Some Projects"
| "target (DELETE_projects i) = Some Projects"
| "target GET_carousel_images = None"
| "target (POST_carousel_images ups) = Some CarouselImages"
| "target (DELETE_carousel_images i) = Some CarouselImages"
| "target GET_videos = None"
| "target (POST_videos u ttl) = Some Videos"
| "target (DELETE_videos i) = Some Videos"

fun on_disk :: "env \<Rightarrow> collection \<Rightarrow> state \<Rightarrow> file_content option" where
  "on_disk e Projects s = contents (disk s) (projectsDbPath e)"
| "on_disk e CarouselImages s = contents (disk s) (carouselDbPath e)"
| "on_disk e Videos s = contents (disk s) (videosDbPath e)"

fun in_memory :: "collection \<Rightarrow> state \<Rightarrow> file_content" where
  "in_memory Projects s = Json_projects (projects s)"
| "in_memory CarouselImages s = Json_carousel (carouselImages s)"
| "in_memory Videos s = Json_videos (videos s)"

text \<open>The path of the JSON file of a collection.\<close>

fun db_path :: "env \<Rightarrow> collection \<Rightarrow> string" where
  "db_path e Projects = projectsDbPath e"
| "db_path e CarouselImages = carouselDbPath e"
| "db_path e Videos = videosDbPath e"

subsection \<open>Identifiers handed out over a run\<close>

text \<open>
  Only a successful Create answers with a single record; its identifier is the one the
  record was created with. \<open>created_ids\<close> lists them over a sequence of requests, in
  order, whether or not the records were deleted later.
\<close>

fun created_id :: "response \<Rightarrow> string option" where
  "created_id (Response st (Project_body p)) = Some (pid p)"
| "created_id (Response st (Carousel_body c)) = Some (c_id c)"
| "created_id (Response st (Video_body v)) = Some (v_id v)"
| "created_id (Response st b) = None"

definition created_ids :: "env \<Rightarrow> request list \<Rightarrow> state \<Rightarrow> string list" where
  "created_ids e rs s = List.map_filter created_id (fst (run e rs s))"

text \<open>
  The relation between a handler's result and the call counter, used to trace each
  identifier back to one call of \<^verbatim>\<open>uuidv4\<close>.
\<close>

definition token_from :: "env \<Rightarrow> state \<Rightarrow> (exn + response) \<times> state \<Rightarrow> bool" where
  "token_from e s res =
     (uuid_calls s \<le> uuid_calls (snd res) \<and>
      (\<forall>resp i. fst res = Inr resp \<longrightarrow> created_id resp = Some i \<longrightarrow>
         (\<exists>n. uuid_calls s \<le> n \<and> n < uuid_calls (snd res) \<and> i = uuidv4 e n)))"

subsection \<open>Image references and the files of the upload directory\<close>

text \<open>
  The image references of the stored records, the paths below the upload directory, and
  the invariant of the data model: the references resolve (as the Update and Delete
  handlers resolve them) to pairwise different files, and these are exactly the files
  present in the upload directory.
\<close>

definition image_refs :: "state \<Rightarrow> string list" where
  "image_refs s = concat (map imageUrls (projects s)) @ map url (carouselImages s)"

definition in_upload_dir :: "env \<Rightarrow> string \<Rightarrow> bool" where
  "in_upload_dir e p = prefix (uploadDir e @ ''/'') p"

definition files_consistent :: "env \<Rightarrow> state \<Rightarrow> bool" where
  "files_consistent e s =
     (distinct (map (localPath e) (image_refs s)) \<and>
      localPath e ` set (image_refs s) = {p. in_upload_dir e p \<and> existsSync (disk s) p})"

text \<open>
  The uploads a request carries, and the assumption on \<^verbatim>\<open>uuidv4\<close> that the names
  generated for them are new: different from each other and from every file that is
  already in the upload directory.
\<close>

fun uploads_of :: "request \<Rightarrow> upload list" where
  "uploads_of (POST_projects ttl descr ups) = ups"
| "uploads_of (PUT_projects i ttl descr ups) = ups"
| "uploads_of (POST_carousel_images ups) = ups"
| "uploads_of r = []"

definition fresh_names :: "env \<Rightarrow> request \<Rightarrow> state \<Rightarrow> bool" where
  "fresh_names e r s =
     (let names = map filename (fst (disk_storage e (uploads_of r) s))
      in distinct names \<and> list_all (\<lambda>n. \<not> existsSync (disk s) (path_join (uploadDir e) n)) names)"

subsection \<open>An example environment and example states\<close>

text \<open>
  Concrete inputs on which the theorems below are instantiated: the server at
  \<^verbatim>\<open>/app\<close> on port 10000 with two projects, one carousel image and
  one video.
\<close>

definition env0 :: env where
  "env0 = \<lparr>PORT = ''10000'', dirname = ''/app'',
            uuidv4 = (\<lambda>n. ''uuid-'' @ replicate n (CHR ''i'')),
            extname = (\<lambda>n. if CHR ''.'' \<in> set n
                            then CHR ''.'' # rev (takeWhile (\<lambda>c. c \<noteq> CHR ''.'') (rev n))
                            else []),
            url_parses = (\<lambda>u. prefix ''http://'' u \<or> prefix ''https://'' u)\<rparr>"

definition project1 :: project where
  "project1 = \<lparr>pid = ''p1'', title = Some ''Bridge'', description = Some ''Steel truss'',
                imageUrls = [''http://localhost:10000/uploads/a.png'',
                             ''http://localhost:10000/uploads/b.png'']\<rparr>"

definition project2 :: project where
  "project2 = \<lparr>pid = ''p2'', title = Some ''Tower'', description = None,
                imageUrls = [''http://localhost:10000/uploads/d.png'']\<rparr>"

definition image1 :: carousel_image where
  "image1 = \<lparr>c_id = ''c1'', url = ''http://localhost:10000/uploads/c.jpg''\<rparr>"

definition video1 :: video where
  "video1 = \<lparr>v_id = ''v1'', v_url = ''https://example.org/v'', v_title = ''Opening''\<rparr>"

definition disk1 :: filesystem where
  "disk1 = \<lparr>contents = [''/app/uploads/a.png'' \<mapsto> Bytes ''A'',
                         ''/app/uploads/b.png'' \<mapsto> Bytes ''B'',
                         ''/app/uploads/c.jpg'' \<mapsto> Bytes ''C'',
                         ''/app/uploads/d.png'' \<mapsto> Bytes ''D'',
                         ''/app/projects.json'' \<mapsto> Json_projects [project1, project2],
                         ''/app/carousel-images.json'' \<mapsto> Json_carousel [image1],
                         ''/app/videos.json'' \<mapsto> Json_videos [video1]],
             unlink_denied = {}, write_denied = {}\<rparr>"

definition state1 :: state where
  "state1 = \<lparr>projects = [project1, project2], carouselImages = [image1], videos = [video1],
              disk = disk1, uuid_calls = 5\<rparr>"

definition state0 :: state where
  "state0 = \<lparr>projects = [], carouselImages = [], videos = [],
              disk = \<lparr>contents = Map.empty, unlink_denied = {}, write_denied = {}\<rparr>,
              uuid_calls = 0\<rparr>"

section \<open>Basic facts about the model\<close>

lemma findIndex_None_iff: "findIndex P xs = None \<longleftrightarrow> (\<forall>x\<in>set xs. \<not> P x)"
  by (induction xs) auto

lemma findIndex_Some_lt: "findIndex P xs = Some k \<Longrightarrow> k < length xs"
  by (induction xs arbitrary: k) (auto split: if_splits)

lemma findIndex_Some_holds: "findIndex P xs = Some k \<Longrightarrow> P (xs ! k)"
  by (induction xs arbitrary: k) (auto split: if_splits)

lemma multer_array_Nil: "multer_array e n [] s = (Inr [], s)"
  by (simp add: multer_array_def)

lemma saveProjects_ok:
  "projectsDbPath e \<notin> write_denied (disk s) \<Longrightarrow>
   saveProjects e s =
     Inr (s\<lparr>disk := (disk s)\<lparr>contents :=
            (contents (disk s))(projectsDbPath e \<mapsto> Json_projects (projects s))\<rparr>\<rparr>)"
  by (simp add: saveProjects_def writeFileSync_def)

section \<open>Create: validation\<close>

text \<open>
  C3. A Create that fails validation answers 400 and returns the state it was given:
  the three arrays, every file on disk and the call counter are untouched. This covers
  a project or carousel upload without a file, a video whose url or title is missing or
  empty, and a video whose url the URL parser rejects.
\<close>

theorem create_validation_failure:
  "handle e (POST_projects ttl descr []) s =
      (Response 400 (Error_body ''At least one image is required.''), s)
   \<and> handle e (POST_carousel_images []) s = (Response 400 (Error_body ''No image uploaded''), s)
   \<and> (\<not> truthy u \<or> \<not> truthy vt \<longrightarrow>
        handle e (POST_videos u vt) s =
          (Response 400 (Error_body ''Both url and title are required.''), s))
   \<and> (truthy u \<and> truthy vt \<and> \<not> url_parses e (the u) \<longrightarrow>
        handle e (POST_videos u vt) s = (Response 400 (Error_body ''Invalid URL format.''), s))"
  by (auto simp: handle_def multer_array_Nil post_projects_def post_carousel_images_def
      post_videos_def)

theorem create_validation_failure_witness:
  "handle env0 (POST_projects (Some ''Bridge'') (Some ''Steel truss'') []) state1 =
      (Response 400 (Error_body ''At least one image is required.''), state1)
   \<and> handle env0 (POST_carousel_images []) state1 =
      (Response 400 (Error_body ''No image uploaded''), state1)
   \<and> handle env0 (POST_videos None (Some ''x'')) state1 =
      (Response 400 (Error_body ''Both url and title are required.''), state1)
   \<and> handle env0 (POST_videos (Some ''https://example.org/v'') (Some [])) state1 =
      (Response 400 (Error_body ''Both url and title are required.''), state1)
   \<and> handle env0 (POST_videos (Some ''not-a-url'') (Some ''x'')) state1 =
      (Response 400 (Error_body ''Invalid URL format.''), state1)"
proof -
  have bad: "\<not> url_parses env0 (the (Some ''not-a-url''))"
    by (simp add: env0_def)
  show ?thesis
    using create_validation_failure [of env0 "Some ''Bridge''" "Some ''Steel truss''" state1
        None "Some ''x''"]
      create_validation_failure [of env0 None None state1 "Some ''https://example.org/v''" "Some []"]
      create_validation_failure [of env0 None None state1 "Some ''not-a-url''" "Some ''x''"] bad
    by simp
qed

section \<open>Create: projects take any title and description\<close>

text \<open>
  C10. The handler of POST /api/projects checks the files only. With at least one
  stored file, and the projects file writable, it answers 201 with the new record, whose
  title and description are whatever the body held (undefined included), appends that
  record to the array and writes the array to projects.json.
\<close>

theorem project_create_no_field_validation:
  "files \<noteq> [] \<and> projectsDbPath e \<notin> write_denied (disk s) \<longrightarrow>
   post_projects e ttl descr files s =
     (let newProject = \<lparr>pid = uuidv4 e (uuid_calls s), title = ttl, description = descr,
                        imageUrls = map (\<lambda>f. image_url e (filename f)) files\<rparr>
      in (Inr (Response 201 (Project_body newProject)),
          s\<lparr>projects := projects s @ [newProject],
            uuid_calls := Suc (uuid_calls s),
            disk := (disk s)\<lparr>contents := (contents (disk s))
               (projectsDbPath e \<mapsto> Json_projects (projects s @ [newProject]))\<rparr>\<rparr>))"
  by (simp add: post_projects_def Let_def saveProjects_ok)

theorem project_create_no_field_validation_witness:
  "post_projects env0 None None [\<lparr>filename = ''f.png''\<rparr>] state0 =
     (Inr (Response 201 (Project_body
        \<lparr>pid = ''uuid-'', title = None, description = None,
         imageUrls = [''http://localhost:10000/uploads/f.png'']\<rparr>)),
      state0\<lparr>projects := [\<lparr>pid = ''uuid-'', title = None, description = None,
                 imageUrls = [''http://localhost:10000/uploads/f.png'']\<rparr>],
             uuid_calls := 1,
             disk := (disk state0)\<lparr>contents := [''/app/projects.json'' \<mapsto> Json_projects
                [\<lparr>pid = ''uuid-'', title = None, description = None,
                  imageUrls = [''http://localhost:10000/uploads/f.png'']\<rparr>]]\<rparr>\<rparr>)"
proof -
  have ok: "[\<lparr>filename = ''f.png''\<rparr>] \<noteq> [] \<and> projectsDbPath env0 \<notin> write_denied (disk state0)"
    by (simp add: state0_def)
  show ?thesis
    using project_create_no_field_validation [of "[\<lparr>filename = ''f.png''\<rparr>]" env0 state0 None None] ok
    by (simp add: Let_def env0_def state0_def image_url_def projectsDbPath_def path_join_def)
qed

section \<open>Further facts: evaluation, uploads, updates, deletion of files\<close>

lemmas example_defs = env0_def state1_def state0_def disk1_def project1_def project2_def
  image1_def video1_def

lemmas path_defs = localPath_def base_url_def image_url_def path_join_def uploadDir_def
  projectsDbPath_def carouselDbPath_def videosDbPath_def

lemmas fs_defs = existsSync_def unlinkSync_def writeFileSync_def saveProjects_def
  saveCarouselImages_def saveVideos_def

lemmas handler_defs = handle_def multer_array_def get_projects_def post_projects_def
  put_projects_def delete_projects_def get_carousel_images_def post_carousel_images_def
  delete_carousel_images_def get_videos_def post_videos_def delete_videos_def
  update_fields_def splice1_def

lemma saveCarouselImages_ok:
  "carouselDbPath e \<notin> write_denied (disk s) \<Longrightarrow>
   saveCarouselImages e s =
     Inr (s\<lparr>disk := (disk s)\<lparr>contents :=
            (contents (disk s))(carouselDbPath e \<mapsto> Json_carousel (carouselImages s))\<rparr>\<rparr>)"
  by (simp add: saveCarouselImages_def writeFileSync_def)

lemma saveVideos_ok:
  "videosDbPath e \<notin> write_denied (disk s) \<Longrightarrow>
   saveVideos e s =
     Inr (s\<lparr>disk := (disk s)\<lparr>contents :=
            (contents (disk s))(videosDbPath e \<mapsto> Json_videos (videos s))\<rparr>\<rparr>)"
  by (simp add: saveVideos_def writeFileSync_def)

lemma disk_storage_fields:
  "disk_storage e ups s = (fs, s1) \<Longrightarrow>
     projects s1 = projects s \<and> carouselImages s1 = carouselImages s \<and> videos s1 = videos s
     \<and> uuid_calls s1 = uuid_calls s + length ups \<and> length fs = length ups
     \<and> write_denied (disk s1) = write_denied (disk s)
     \<and> unlink_denied (disk s1) = unlink_denied (disk s)"
proof (induction ups arbitrary: s fs s1)
  case Nil
  then show ?case by simp
next
  case (Cons u us)
  then show ?case
    by (auto simp: Let_def split: prod.splits)
qed

lemma multer_array_accepts:
  "length ups \<le> n \<Longrightarrow>
   multer_array e n ups s = (Inr (fst (disk_storage e ups s)), snd (disk_storage e ups s))"
  by (simp add: multer_array_def split: prod.splits)

lemma update_fields_pid [simp]: "pid (update_fields ttl descr p) = pid p"
  by (simp add: update_fields_def Let_def)

lemma update_fields_imageUrls [simp]: "imageUrls (update_fields ttl descr p) = imageUrls p"
  by (simp add: update_fields_def Let_def)

lemma update_fields_title:
  "title (update_fields ttl descr p) = (if truthy ttl then ttl else title p)"
  by (simp add: update_fields_def Let_def)

lemma update_fields_description:
  "description (update_fields ttl descr p) = (if truthy descr then descr else description p)"
  by (simp add: update_fields_def Let_def)

lemma saveProjects_projects: "saveProjects e s = Inr s1 \<Longrightarrow> projects s1 = projects s"
  by (auto simp: saveProjects_def split: sum.splits)

text \<open>What an Update leaves in memory, whatever the outcome of the file operations.\<close>

lemma put_projects_memory:
  "projects (snd (put_projects e i ttl descr files s)) =
     (case findIndex (\<lambda>p. pid p = i) (projects s) of
        None \<Rightarrow> projects s
      | Some k \<Rightarrow>
          (projects s)[k :=
             (if files \<noteq> [] \<and> fst (unlink_images e (imageUrls (projects s ! k)) (disk s)) = None
              then (update_fields ttl descr (projects s ! k))
                     \<lparr>imageUrls := map (\<lambda>f. image_url e (filename f)) files\<rparr>
              else update_fields ttl descr (projects s ! k))])"
  by (auto simp: put_projects_def Let_def dest: saveProjects_projects
      split: option.splits prod.splits sum.splits)


lemma nth_list_update_any:
  "j < length xs \<Longrightarrow> xs[k := v] ! j = (if k = j then v else xs ! j)"
  by (cases "k < length xs") auto

lemma put_projects_length:
  "length (projects (snd (put_projects e i ttl descr files s))) = length (projects s)"
  by (simp add: put_projects_memory split: option.splits)

lemma put_projects_frame:
  assumes "j < length (projects s)"
  shows "pid (projects (snd (put_projects e i ttl descr files s)) ! j) = pid (projects s ! j)"
    and "\<not> truthy ttl \<Longrightarrow>
         title (projects (snd (put_projects e i ttl descr files s)) ! j) = title (projects s ! j)"
    and "\<not> truthy descr \<Longrightarrow>
         description (projects (snd (put_projects e i ttl descr files s)) ! j) =
           description (projects s ! j)"
    and "files = [] \<Longrightarrow>
         imageUrls (projects (snd (put_projects e i ttl descr files s)) ! j) =
           imageUrls (projects s ! j)"
    and "pid (projects s ! j) \<noteq> i \<Longrightarrow>
         projects (snd (put_projects e i ttl descr files s)) ! j = projects s ! j"
  using assms
  by (auto simp: put_projects_memory nth_list_update_any update_fields_title
      update_fields_description dest: findIndex_Some_holds split: option.splits)

lemma route_put_cases:
  "(5 < length ups \<and> projects (snd (route e (PUT_projects i ttl descr ups) s)) = projects s)
   \<or> (\<exists>fs s0. projects s0 = projects s \<and> (fs = [] \<longleftrightarrow> ups = []) \<and>
         snd (route e (PUT_projects i ttl descr ups) s) = snd (put_projects e i ttl descr fs s0))"
proof (cases "length ups \<le> 5")
  case True
  obtain fs s0 where ds: "disk_storage e ups s = (fs, s0)"
    by (cases "disk_storage e ups s")
  from disk_storage_fields [OF ds] have "projects s0 = projects s" "fs = [] \<longleftrightarrow> ups = []"
    by auto
  moreover have "snd (route e (PUT_projects i ttl descr ups) s) =
      snd (put_projects e i ttl descr fs s0)"
    using True ds by (simp add: multer_array_accepts)
  ultimately show ?thesis by blast
next
  case False
  then show ?thesis by (simp add: multer_array_def)
qed

lemma snd_handle: "snd (handle e r s) = snd (route e r s)"
  by (simp add: handle_def split: prod.splits sum.splits)

lemma existsSync_unlinkSync:
  "unlinkSync fs p = Inr fs1 \<Longrightarrow> existsSync fs1 q \<Longrightarrow> existsSync fs q"
  by (auto simp: unlinkSync_def existsSync_def split: if_splits)

lemma unlink_images_ok:
  "(\<forall>u\<in>set us. existsSync fs (localPath e u) \<longrightarrow> localPath e u \<notin> unlink_denied fs) \<Longrightarrow>
   unlink_images e us fs =
     (None, fs\<lparr>contents := contents fs |` (- localPath e ` set us)\<rparr>)"
proof (induction us arbitrary: fs)
  case Nil
  then show ?case by simp
next
  case (Cons u us)
  show ?case
  proof (cases "existsSync fs (localPath e u)")
    case True
    with Cons.prems have ok: "localPath e u \<notin> unlink_denied fs"
      by simp
    let ?fs1 = "fs\<lparr>contents := (contents fs)(localPath e u := None)\<rparr>"
    from True ok have un: "unlinkSync fs (localPath e u) = Inr ?fs1"
      by (simp add: unlinkSync_def existsSync_def)
    have "\<forall>v\<in>set us. existsSync ?fs1 (localPath e v) \<longrightarrow> localPath e v \<notin> unlink_denied ?fs1"
      using Cons.prems by (auto simp: existsSync_def split: if_splits)
    from Cons.IH [OF this] True un show ?thesis
      by (auto simp: restrict_map_def fun_eq_iff)
  next
    case False
    from Cons.prems have "\<forall>v\<in>set us. existsSync fs (localPath e v) \<longrightarrow> localPath e v \<notin> unlink_denied fs"
      by simp
    from Cons.IH [OF this] False show ?thesis
      by (auto simp: restrict_map_def fun_eq_iff existsSync_def)
  qed
qed

lemma unlink_images_throws:
  "unlink_images e us fs = (Some x, fs1) \<Longrightarrow>
     x = EPERM \<and> (\<exists>u\<in>set us. existsSync fs (localPath e u) \<and> localPath e u \<in> unlink_denied fs)"
proof (induction us arbitrary: fs)
  case Nil
  then show ?case by simp
next
  case (Cons u us)
  show ?case
  proof (cases "existsSync fs (localPath e u)")
    case True
    show ?thesis
    proof (cases "localPath e u \<in> unlink_denied fs")
      case d: True
      with True Cons.prems show ?thesis
        by (auto simp: unlinkSync_def existsSync_def)
    next
      case False
      let ?fs1 = "fs\<lparr>contents := (contents fs)(localPath e u := None)\<rparr>"
      from True False have un: "unlinkSync fs (localPath e u) = Inr ?fs1"
        by (simp add: unlinkSync_def existsSync_def)
      with True Cons.prems have "unlink_images e us ?fs1 = (Some x, fs1)"
        by simp
      from Cons.IH [OF this] show ?thesis
        by (auto simp: existsSync_def split: if_splits)
    qed
  next
    case False
    with Cons.prems have "unlink_images e us fs = (Some x, fs1)"
      by simp
    from Cons.IH [OF this] show ?thesis by auto
  qed
qed


section \<open>Update: replacing the images\<close>

text \<open>
  C5. An Update of an existing project that carries files, where no existing old file is
  refused by unlinkSync and projects.json is writable: (a) every path the record's
  current image URLs resolve to is removed from the disk, a path with no file simply
  staying absent; (b) the record gets the URLs built from the new files, next to the
  title and description edits; (c) the array with the new record is written to
  projects.json on the disk that (a) left, and the answer is 200 with the new record.
\<close>

theorem update_replaces_images:
  "findIndex (\<lambda>p. pid p = i) (projects s) = Some k \<and> files \<noteq> []
   \<and> (\<forall>u\<in>set (imageUrls (projects s ! k)).
         existsSync (disk s) (localPath e u) \<longrightarrow> localPath e u \<notin> unlink_denied (disk s))
   \<and> projectsDbPath e \<notin> write_denied (disk s) \<longrightarrow>
   (let fs1 = (disk s)\<lparr>contents :=
                 contents (disk s) |` (- localPath e ` set (imageUrls (projects s ! k)))\<rparr>;
        p3 = (update_fields ttl descr (projects s ! k))
               \<lparr>imageUrls := map (\<lambda>f. image_url e (filename f)) files\<rparr>;
        ps = (projects s)[k := p3]
    in put_projects e i ttl descr files s =
         (Inr (Response 200 (Updated_body ''Project updated successfully'' p3)),
          s\<lparr>projects := ps,
            disk := fs1\<lparr>contents := (contents fs1)(projectsDbPath e \<mapsto> Json_projects ps)\<rparr>\<rparr>))"
proof
  assume a: "findIndex (\<lambda>p. pid p = i) (projects s) = Some k \<and> files \<noteq> []
   \<and> (\<forall>u\<in>set (imageUrls (projects s ! k)).
         existsSync (disk s) (localPath e u) \<longrightarrow> localPath e u \<notin> unlink_denied (disk s))
   \<and> projectsDbPath e \<notin> write_denied (disk s)"
  then have un: "unlink_images e (imageUrls (projects s ! k)) (disk s) =
     (None, (disk s)\<lparr>contents :=
                 contents (disk s) |` (- localPath e ` set (imageUrls (projects s ! k)))\<rparr>)"
    using unlink_images_ok [of "imageUrls (projects s ! k)" "disk s" e] by blast
  from a un show "(let fs1 = (disk s)\<lparr>contents :=
                 contents (disk s) |` (- localPath e ` set (imageUrls (projects s ! k)))\<rparr>;
        p3 = (update_fields ttl descr (projects s ! k))
               \<lparr>imageUrls := map (\<lambda>f. image_url e (filename f)) files\<rparr>;
        ps = (projects s)[k := p3]
    in put_projects e i ttl descr files s =
         (Inr (Response 200 (Updated_body ''Project updated successfully'' p3)),
          s\<lparr>projects := ps,
            disk := fs1\<lparr>contents := (contents fs1)(projectsDbPath e \<mapsto> Json_projects ps)\<rparr>\<rparr>))"
    by (simp add: put_projects_def Let_def saveProjects_ok)
qed

theorem update_replaces_images_witness:
  "put_projects env0 ''p1'' None (Some ''Concrete'') [\<lparr>filename = ''n.png''\<rparr>]
     (state1\<lparr>disk := disk1\<lparr>contents := (contents disk1)(''/app/uploads/b.png'' := None)\<rparr>\<rparr>) =
   (Inr (Response 200 (Updated_body ''Project updated successfully''
      (project1\<lparr>description := Some ''Concrete'',
                imageUrls := [''http://localhost:10000/uploads/n.png'']\<rparr>))),
    state1\<lparr>projects := [project1\<lparr>description := Some ''Concrete'',
                           imageUrls := [''http://localhost:10000/uploads/n.png'']\<rparr>, project2],
           disk := disk1\<lparr>contents := (contents disk1)
             (''/app/uploads/a.png'' := None, ''/app/uploads/b.png'' := None,
              ''/app/projects.json'' \<mapsto> Json_projects
                 [project1\<lparr>description := Some ''Concrete'',
                            imageUrls := [''http://localhost:10000/uploads/n.png'']\<rparr>,
                  project2])\<rparr>\<rparr>)"
proof -
  let ?s = "state1\<lparr>disk := disk1\<lparr>contents := (contents disk1)(''/app/uploads/b.png'' := None)\<rparr>\<rparr>"
  have hyps: "findIndex (\<lambda>p. pid p = ''p1'') (projects ?s) = Some 0
     \<and> [\<lparr>filename = ''n.png''\<rparr>] \<noteq> []
     \<and> (\<forall>u\<in>set (imageUrls (projects ?s ! 0)).
           existsSync (disk ?s) (localPath env0 u) \<longrightarrow> localPath env0 u \<notin> unlink_denied (disk ?s))
     \<and> projectsDbPath env0 \<notin> write_denied (disk ?s)"
    by (simp add: example_defs)
  have paths: "localPath env0 ` set (imageUrls (projects ?s ! 0)) =
      {''/app/uploads/a.png'', ''/app/uploads/b.png''}"
    by (simp add: example_defs path_defs)
  show ?thesis
    using update_replaces_images [of "''p1''" ?s 0 "[\<lparr>filename = ''n.png''\<rparr>]" env0 None
        "Some ''Concrete''"] hyps
    unfolding paths
    by (simp add: Let_def update_fields_def state1_def project1_def project2_def
        image_url_def env0_def projectsDbPath_def path_join_def restrict_map_def fun_eq_iff)
qed

section \<open>Update: fields that are not supplied\<close>

text \<open>
  C4. An Update of an existing project with a non-empty title, no description and no
  files replaces the title of the first record with that id and nothing else in the
  array; when projects.json is writable the answer is 200 and only that file changes on
  disk. For every Update, whatever its outcome: the array keeps its length, every record
  keeps its id, a title or description that is missing or empty in the request is kept,
  the image URLs are kept unless files are sent, and records with another id are kept
  whole.
\<close>

theorem partial_update:
  "(findIndex (\<lambda>p. pid p = i) (projects s) = Some k \<and> t \<noteq> [] \<longrightarrow>
      projects (snd (handle e (PUT_projects i (Some t) None []) s)) =
        (projects s)[k := (projects s ! k)\<lparr>title := Some t\<rparr>]
      \<and> (projectsDbPath e \<notin> write_denied (disk s) \<longrightarrow>
           handle e (PUT_projects i (Some t) None []) s =
             (Response 200 (Updated_body ''Project updated successfully''
                 ((projects s ! k)\<lparr>title := Some t\<rparr>)),
              s\<lparr>projects := (projects s)[k := (projects s ! k)\<lparr>title := Some t\<rparr>],
                disk := (disk s)\<lparr>contents := (contents (disk s))
                  (projectsDbPath e \<mapsto>
                     Json_projects ((projects s)[k := (projects s ! k)\<lparr>title := Some t\<rparr>]))\<rparr>\<rparr>)))
   \<and> length (projects (snd (handle e (PUT_projects i ttl descr ups) s))) = length (projects s)
   \<and> (\<forall>j < length (projects s).
        pid (projects (snd (handle e (PUT_projects i ttl descr ups) s)) ! j) = pid (projects s ! j)
        \<and> (\<not> truthy ttl \<longrightarrow>
             title (projects (snd (handle e (PUT_projects i ttl descr ups) s)) ! j) =
               title (projects s ! j))
        \<and> (\<not> truthy descr \<longrightarrow>
             description (projects (snd (handle e (PUT_projects i ttl descr ups) s)) ! j) =
               description (projects s ! j))
        \<and> (ups = [] \<longrightarrow>
             imageUrls (projects (snd (handle e (PUT_projects i ttl descr ups) s)) ! j) =
               imageUrls (projects s ! j))
        \<and> (pid (projects s ! j) \<noteq> i \<longrightarrow>
             projects (snd (handle e (PUT_projects i ttl descr ups) s)) ! j = projects s ! j))"
proof (intro conjI impI allI)
  assume "findIndex (\<lambda>p. pid p = i) (projects s) = Some k \<and> t \<noteq> []"
  then show "projects (snd (handle e (PUT_projects i (Some t) None []) s)) =
        (projects s)[k := (projects s ! k)\<lparr>title := Some t\<rparr>]"
    by (simp add: snd_handle multer_array_Nil put_projects_memory update_fields_def)
next
  assume "findIndex (\<lambda>p. pid p = i) (projects s) = Some k \<and> t \<noteq> []"
    and "projectsDbPath e \<notin> write_denied (disk s)"
  then show "handle e (PUT_projects i (Some t) None []) s =
             (Response 200 (Updated_body ''Project updated successfully''
                 ((projects s ! k)\<lparr>title := Some t\<rparr>)),
              s\<lparr>projects := (projects s)[k := (projects s ! k)\<lparr>title := Some t\<rparr>],
                disk := (disk s)\<lparr>contents := (contents (disk s))
                  (projectsDbPath e \<mapsto>
                     Json_projects ((projects s)[k := (projects s ! k)\<lparr>title := Some t\<rparr>]))\<rparr>\<rparr>)"
    by (simp add: handle_def multer_array_Nil put_projects_def update_fields_def Let_def
        saveProjects_ok)
next
  show "length (projects (snd (handle e (PUT_projects i ttl descr ups) s))) = length (projects s)"
    using route_put_cases [of ups e i ttl descr s]
    by (auto simp: snd_handle put_projects_length)
next
  fix j
  assume j: "j < length (projects s)"
  show "pid (projects (snd (handle e (PUT_projects i ttl descr ups) s)) ! j) = pid (projects s ! j)"
    using route_put_cases [of ups e i ttl descr s] j
    by (auto simp: snd_handle put_projects_frame(1))
  show "title (projects (snd (handle e (PUT_projects i ttl descr ups) s)) ! j) =
               title (projects s ! j)" if "\<not> truthy ttl"
    using route_put_cases [of ups e i ttl descr s] j that
    by (auto simp: snd_handle put_projects_frame(2))
  show "description (projects (snd (handle e (PUT_projects i ttl descr ups) s)) ! j) =
               description (projects s ! j)" if "\<not> truthy descr"
    using route_put_cases [of ups e i ttl descr s] j that
    by (auto simp: snd_handle put_projects_frame(3))
  show "imageUrls (projects (snd (handle e (PUT_projects i ttl descr ups) s)) ! j) =
               imageUrls (projects s ! j)" if "ups = []"
    using route_put_cases [of ups e i ttl descr s] j that
    by (auto simp: snd_handle put_projects_frame(4))
  show "projects (snd (handle e (PUT_projects i ttl descr ups) s)) ! j = projects s ! j"
    if "pid (projects s ! j) \<noteq> i"
    using route_put_cases [of ups e i ttl descr s] j that
    by (auto simp: snd_handle put_projects_frame(5))
qed

theorem partial_update_witness:
  "projects (snd (handle env0 (PUT_projects ''p1'' (Some ''Pier'') None []) state1)) =
     [project1\<lparr>title := Some ''Pier''\<rparr>, project2]
   \<and> fst (handle env0 (PUT_projects ''p1'' (Some ''Pier'') None []) state1) =
       Response 200 (Updated_body ''Project updated successfully''
         (project1\<lparr>title := Some ''Pier''\<rparr>))
   \<and> title (projects (snd (handle env0 (PUT_projects ''p1'' None (Some ''Concrete'') []) state1))
         ! 0) = Some ''Bridge''
   \<and> imageUrls (projects (snd (handle env0 (PUT_projects ''p1'' None (Some ''Concrete'') [])
         state1)) ! 0) = imageUrls project1
   \<and> projects (snd (handle env0 (PUT_projects ''p1'' None (Some ''Concrete'') []) state1)) ! 1 =
       project2"
proof -
  note th = partial_update [of "''p1''" state1 0 "''Pier''" env0 None "Some ''Concrete''" "[]"]
  have found: "findIndex (\<lambda>p. pid p = ''p1'') (projects state1) = Some 0 \<and> ''Pier'' \<noteq> []"
    by (simp add: example_defs)
  have writable: "projectsDbPath env0 \<notin> write_denied (disk state1)"
    by (simp add: example_defs)
  have recs: "projects state1 = [project1, project2]"
    by (simp add: state1_def)
  from th found have a: "projects (snd (handle env0 (PUT_projects ''p1'' (Some ''Pier'') None [])
      state1)) = (projects state1)[0 := (projects state1 ! 0)\<lparr>title := Some ''Pier''\<rparr>]"
    by blast
  from th found writable have b: "fst (handle env0 (PUT_projects ''p1'' (Some ''Pier'') None [])
      state1) = Response 200 (Updated_body ''Project updated successfully''
                 ((projects state1 ! 0)\<lparr>title := Some ''Pier''\<rparr>))"
    by simp
  from th have frame: "\<forall>j < length (projects state1).
       (\<not> truthy None \<longrightarrow>
          title (projects (snd (handle env0 (PUT_projects ''p1'' None (Some ''Concrete'') [])
            state1)) ! j) = title (projects state1 ! j))
     \<and> (([]::upload list) = [] \<longrightarrow>
          imageUrls (projects (snd (handle env0 (PUT_projects ''p1'' None (Some ''Concrete'') [])
            state1)) ! j) = imageUrls (projects state1 ! j))
     \<and> (pid (projects state1 ! j) \<noteq> ''p1'' \<longrightarrow>
          projects (snd (handle env0 (PUT_projects ''p1'' None (Some ''Concrete'') []) state1)) ! j
            = projects state1 ! j)"
    by blast
  from frame [rule_format, of 0] frame [rule_format, of 1] a b show ?thesis
    by (simp add: recs project1_def project2_def)
qed

lemma splice1_is_filter:
  "distinct (map f xs) \<Longrightarrow> findIndex (\<lambda>x. f x = i) xs = Some k \<Longrightarrow>
   splice1 k xs = filter (\<lambda>x. f x \<noteq> i) xs"
proof (induction xs arbitrary: k)
  case Nil
  then show ?case by simp
next
  case (Cons x xs)
  show ?case
  proof (cases "f x = i")
    case True
    from Cons.prems have "f x \<notin> f ` set xs"
      by simp
    with True have "\<forall>y\<in>set xs. f y \<noteq> i"
      by (metis imageI)
    moreover from True Cons.prems have "k = 0"
      by simp
    ultimately have "k = 0" and "\<forall>y\<in>set xs. f y \<noteq> i"
      by simp_all
    with True show ?thesis
      by (simp add: splice1_def)
  next
    case False
    with Cons.prems obtain k0 where k: "k = Suc k0" "findIndex (\<lambda>x. f x = i) xs = Some k0"
      by auto
    with Cons.IH [of k0] Cons.prems False show ?thesis
      by (simp add: splice1_def)
  qed
qed

lemma saveCarouselImages_carouselImages:
  "saveCarouselImages e s = Inr s1 \<Longrightarrow> carouselImages s1 = carouselImages s"
  by (auto simp: saveCarouselImages_def split: sum.splits)

lemma saveVideos_videos: "saveVideos e s = Inr s1 \<Longrightarrow> videos s1 = videos s"
  by (auto simp: saveVideos_def split: sum.splits)

lemma delete_projects_success:
  "delete_projects e i s = (Inr (Response 200 b), s1) \<Longrightarrow>
     \<exists>k. findIndex (\<lambda>p. pid p = i) (projects s) = Some k \<and> projects s1 = splice1 k (projects s)"
  by (auto simp: delete_projects_def Let_def dest: saveProjects_projects
      split: option.splits prod.splits sum.splits)

lemma delete_carousel_images_success:
  "delete_carousel_images e i s = (Inr (Response 200 b), s1) \<Longrightarrow>
     \<exists>k. findIndex (\<lambda>c. c_id c = i) (carouselImages s) = Some k
        \<and> carouselImages s1 = splice1 k (carouselImages s)"
  by (auto simp: delete_carousel_images_def Let_def dest: saveCarouselImages_carouselImages
      split: option.splits prod.splits sum.splits if_splits)

lemma delete_videos_success:
  "delete_videos e i s = (Inr (Response 200 b), s1) \<Longrightarrow>
     \<exists>k. findIndex (\<lambda>v. v_id v = i) (videos s) = Some k \<and> videos s1 = splice1 k (videos s)"
  by (auto simp: delete_videos_def Let_def dest: saveVideos_videos
      split: option.splits prod.splits sum.splits)

lemma handle_Response_200:
  "handle e r s = (Response 200 b, s1) \<Longrightarrow> route e r s = (Inr (Response 200 b), s1)"
  by (cases "route e r s"; cases "fst (route e r s)")
    (auto simp: handle_def elim: error_handler.elims)

lemma delete_projects_missing:
  "i \<notin> pid ` set (projects s) \<Longrightarrow>
   handle e (DELETE_projects i) s = (Response 404 (Error_body ''Project not found''), s)"
proof -
  assume "i \<notin> pid ` set (projects s)"
  then have "findIndex (\<lambda>p. pid p = i) (projects s) = None"
    by (auto simp: findIndex_None_iff)
  then show ?thesis
    by (simp add: handle_def delete_projects_def)
qed

lemma delete_carousel_images_missing:
  "i \<notin> c_id ` set (carouselImages s) \<Longrightarrow>
   handle e (DELETE_carousel_images i) s = (Response 404 (Error_body ''Image not found''), s)"
proof -
  assume "i \<notin> c_id ` set (carouselImages s)"
  then have "findIndex (\<lambda>c. c_id c = i) (carouselImages s) = None"
    by (auto simp: findIndex_None_iff)
  then show ?thesis
    by (simp add: handle_def delete_carousel_images_def)
qed

lemma delete_videos_missing:
  "i \<notin> v_id ` set (videos s) \<Longrightarrow>
   handle e (DELETE_videos i) s = (Response 404 (Error_body ''Video not found''), s)"
proof -
  assume "i \<notin> v_id ` set (videos s)"
  then have "findIndex (\<lambda>v. v_id v = i) (videos s) = None"
    by (auto simp: findIndex_None_iff)
  then show ?thesis
    by (simp add: handle_def delete_videos_def)
qed

section \<open>Delete by id\<close>

text \<open>
  C6. In each of the three collections: a Delete of an id that no record has answers 404
  and returns the state unchanged; when the ids of the collection are pairwise distinct
  and a Delete answers 200, the collection afterwards is the old one without the record
  of that id, in the same order, List returns exactly that, and a second Delete of the
  id answers 404 and changes nothing.
\<close>

theorem delete_by_id:
  "(i \<notin> pid ` set (projects s) \<longrightarrow>
      handle e (DELETE_projects i) s = (Response 404 (Error_body ''Project not found''), s))
   \<and> (i \<notin> c_id ` set (carouselImages s) \<longrightarrow>
      handle e (DELETE_carousel_images i) s = (Response 404 (Error_body ''Image not found''), s))
   \<and> (i \<notin> v_id ` set (videos s) \<longrightarrow>
      handle e (DELETE_videos i) s = (Response 404 (Error_body ''Video not found''), s))
   \<and> (distinct (map pid (projects s)) \<and> handle e (DELETE_projects i) s = (Response 200 b, s1) \<longrightarrow>
        projects s1 = filter (\<lambda>p. pid p \<noteq> i) (projects s)
        \<and> handle e GET_projects s1 = (Response 200 (Projects_body (projects s1)), s1)
        \<and> i \<notin> pid ` set (projects s1)
        \<and> handle e (DELETE_projects i) s1 = (Response 404 (Error_body ''Project not found''), s1))
   \<and> (distinct (map c_id (carouselImages s))
        \<and> handle e (DELETE_carousel_images i) s = (Response 200 b, s1) \<longrightarrow>
        carouselImages s1 = filter (\<lambda>c. c_id c \<noteq> i) (carouselImages s)
        \<and> handle e GET_carousel_images s1 =
            (Response 200 (Carousel_list_body (carouselImages s1)), s1)
        \<and> i \<notin> c_id ` set (carouselImages s1)
        \<and> handle e (DELETE_carousel_images i) s1 =
            (Response 404 (Error_body ''Image not found''), s1))
   \<and> (distinct (map v_id (videos s)) \<and> handle e (DELETE_videos i) s = (Response 200 b, s1) \<longrightarrow>
        videos s1 = filter (\<lambda>v. v_id v \<noteq> i) (videos s)
        \<and> handle e GET_videos s1 = (Response 200 (Videos_body (videos s1)), s1)
        \<and> i \<notin> v_id ` set (videos s1)
        \<and> handle e (DELETE_videos i) s1 = (Response 404 (Error_body ''Video not found''), s1))"
proof -
  have p: "projects s1 = filter (\<lambda>p. pid p \<noteq> i) (projects s)"
    if "distinct (map pid (projects s))" "handle e (DELETE_projects i) s = (Response 200 b, s1)"
    using that delete_projects_success [of e i s b s1]
      handle_Response_200 [of e "DELETE_projects i" s b s1]
    by (auto simp: splice1_is_filter)
  have c: "carouselImages s1 = filter (\<lambda>c. c_id c \<noteq> i) (carouselImages s)"
    if "distinct (map c_id (carouselImages s))"
      "handle e (DELETE_carousel_images i) s = (Response 200 b, s1)"
    using that delete_carousel_images_success [of e i s b s1]
      handle_Response_200 [of e "DELETE_carousel_images i" s b s1]
    by (auto simp: splice1_is_filter)
  have v: "videos s1 = filter (\<lambda>v. v_id v \<noteq> i) (videos s)"
    if "distinct (map v_id (videos s))" "handle e (DELETE_videos i) s = (Response 200 b, s1)"
    using that delete_videos_success [of e i s b s1]
      handle_Response_200 [of e "DELETE_videos i" s b s1]
    by (auto simp: splice1_is_filter)
  have p2: "i \<notin> pid ` set (projects s1)"
    if "distinct (map pid (projects s))" "handle e (DELETE_projects i) s = (Response 200 b, s1)"
    using p [OF that] by auto
  have c2: "i \<notin> c_id ` set (carouselImages s1)"
    if "distinct (map c_id (carouselImages s))"
      "handle e (DELETE_carousel_images i) s = (Response 200 b, s1)"
    using c [OF that] by auto
  have v2: "i \<notin> v_id ` set (videos s1)"
    if "distinct (map v_id (videos s))" "handle e (DELETE_videos i) s = (Response 200 b, s1)"
    using v [OF that] by auto
  have gp: "handle e GET_projects s1 = (Response 200 (Projects_body (projects s1)), s1)"
    by (simp add: handle_def get_projects_def)
  have gc: "handle e GET_carousel_images s1 =
      (Response 200 (Carousel_list_body (carouselImages s1)), s1)"
    by (simp add: handle_def get_carousel_images_def)
  have gv: "handle e GET_videos s1 = (Response 200 (Videos_body (videos s1)), s1)"
    by (simp add: handle_def get_videos_def)
  show ?thesis
  proof (intro conjI impI)
    assume a: "distinct (map pid (projects s)) \<and>
      handle e (DELETE_projects i) s = (Response 200 b, s1)"
    then show "projects s1 = filter (\<lambda>p. pid p \<noteq> i) (projects s)"
      using p by blast
    from a show "i \<notin> pid ` set (projects s1)"
      using p2 by blast
    then show "handle e (DELETE_projects i) s1 =
        (Response 404 (Error_body ''Project not found''), s1)"
      by (rule delete_projects_missing)
  next
    assume a: "distinct (map c_id (carouselImages s)) \<and>
      handle e (DELETE_carousel_images i) s = (Response 200 b, s1)"
    then show "carouselImages s1 = filter (\<lambda>c. c_id c \<noteq> i) (carouselImages s)"
      using c by blast
    from a show "i \<notin> c_id ` set (carouselImages s1)"
      using c2 by blast
    then show "handle e (DELETE_carousel_images i) s1 =
        (Response 404 (Error_body ''Image not found''), s1)"
      by (rule delete_carousel_images_missing)
  next
    assume a: "distinct (map v_id (videos s)) \<and>
      handle e (DELETE_videos i) s = (Response 200 b, s1)"
    then show "videos s1 = filter (\<lambda>v. v_id v \<noteq> i) (videos s)"
      using v by blast
    from a show "i \<notin> v_id ` set (videos s1)"
      using v2 by blast
    then show "handle e (DELETE_videos i) s1 =
        (Response 404 (Error_body ''Video not found''), s1)"
      by (rule delete_videos_missing)
  qed (simp_all add: delete_projects_missing delete_carousel_images_missing
      delete_videos_missing gp gc gv)
qed

theorem delete_by_id_witness:
  "handle env0 (DELETE_projects ''nope'') state1 =
     (Response 404 (Error_body ''Project not found''), state1)
   \<and> handle env0 (DELETE_carousel_images ''nope'') state1 =
     (Response 404 (Error_body ''Image not found''), state1)
   \<and> handle env0 (DELETE_videos ''nope'') state1 =
     (Response 404 (Error_body ''Video not found''), state1)
   \<and> projects (snd (handle env0 (DELETE_projects ''p1'') state1)) = [project2]
   \<and> fst (handle env0 (DELETE_projects ''p1'') (snd (handle env0 (DELETE_projects ''p1'') state1)))
       = Response 404 (Error_body ''Project not found'')
   \<and> carouselImages (snd (handle env0 (DELETE_carousel_images ''c1'') state1)) = []
   \<and> fst (handle env0 (DELETE_carousel_images ''c1'')
         (snd (handle env0 (DELETE_carousel_images ''c1'') state1)))
       = Response 404 (Error_body ''Image not found'')
   \<and> videos (snd (handle env0 (DELETE_videos ''v1'') state1)) = []
   \<and> fst (handle env0 (DELETE_videos ''v1'') (snd (handle env0 (DELETE_videos ''v1'') state1)))
       = Response 404 (Error_body ''Video not found'')"
proof -
  let ?ok = "Message_body ''Project deleted successfully''"
  let ?okc = "Message_body ''Image deleted successfully''"
  let ?okv = "Message_body ''Video deleted successfully''"
  have missing: "''nope'' \<notin> pid ` set (projects state1)"
    "''nope'' \<notin> c_id ` set (carouselImages state1)" "''nope'' \<notin> v_id ` set (videos state1)"
    by (simp_all add: example_defs)
  have ids: "distinct (map pid (projects state1))" "distinct (map c_id (carouselImages state1))"
    "distinct (map v_id (videos state1))"
    by (simp_all add: example_defs)
  have "fst (handle env0 (DELETE_projects ''p1'') state1) = Response 200 ?ok"
    by (simp add: example_defs path_defs fs_defs handler_defs Let_def)
  then have dp: "handle env0 (DELETE_projects ''p1'') state1 =
      (Response 200 ?ok, snd (handle env0 (DELETE_projects ''p1'') state1))"
    by (simp add: prod_eq_iff)
  have "fst (handle env0 (DELETE_carousel_images ''c1'') state1) = Response 200 ?okc"
    by (simp add: example_defs path_defs fs_defs handler_defs Let_def)
  then have dc: "handle env0 (DELETE_carousel_images ''c1'') state1 =
      (Response 200 ?okc, snd (handle env0 (DELETE_carousel_images ''c1'') state1))"
    by (simp add: prod_eq_iff)
  have "fst (handle env0 (DELETE_videos ''v1'') state1) = Response 200 ?okv"
    by (simp add: example_defs path_defs fs_defs handler_defs Let_def)
  then have dv: "handle env0 (DELETE_videos ''v1'') state1 =
      (Response 200 ?okv, snd (handle env0 (DELETE_videos ''v1'') state1))"
    by (simp add: prod_eq_iff)
  have f: "filter (\<lambda>p. pid p \<noteq> ''p1'') (projects state1) = [project2]"
    "filter (\<lambda>c. c_id c \<noteq> ''c1'') (carouselImages state1) = []"
    "filter (\<lambda>v. v_id v \<noteq> ''v1'') (videos state1) = []"
    by (simp_all add: example_defs)
  from delete_by_id [of "''nope''" state1 env0 ?ok state1] missing
  have m: "handle env0 (DELETE_projects ''nope'') state1 =
     (Response 404 (Error_body ''Project not found''), state1)
   \<and> handle env0 (DELETE_carousel_images ''nope'') state1 =
     (Response 404 (Error_body ''Image not found''), state1)
   \<and> handle env0 (DELETE_videos ''nope'') state1 =
     (Response 404 (Error_body ''Video not found''), state1)"
    by blast
  from delete_by_id [of "''p1''" state1 env0 ?ok "snd (handle env0 (DELETE_projects ''p1'') state1)"]
    ids dp
  have p: "projects (snd (handle env0 (DELETE_projects ''p1'') state1)) =
      filter (\<lambda>p. pid p \<noteq> ''p1'') (projects state1)
    \<and> handle env0 (DELETE_projects ''p1'') (snd (handle env0 (DELETE_projects ''p1'') state1)) =
      (Response 404 (Error_body ''Project not found''),
       snd (handle env0 (DELETE_projects ''p1'') state1))"
    by blast
  from delete_by_id [of "''c1''" state1 env0 ?okc
      "snd (handle env0 (DELETE_carousel_images ''c1'') state1)"] ids dc
  have c: "carouselImages (snd (handle env0 (DELETE_carousel_images ''c1'') state1)) =
      filter (\<lambda>c. c_id c \<noteq> ''c1'') (carouselImages state1)
    \<and> handle env0 (DELETE_carousel_images ''c1'')
        (snd (handle env0 (DELETE_carousel_images ''c1'') state1)) =
      (Response 404 (Error_body ''Image not found''),
       snd (handle env0 (DELETE_carousel_images ''c1'') state1))"
    by blast
  from delete_by_id [of "''v1''" state1 env0 ?okv "snd (handle env0 (DELETE_videos ''v1'') state1)"]
    ids dv
  have v: "videos (snd (handle env0 (DELETE_videos ''v1'') state1)) =
      filter (\<lambda>v. v_id v \<noteq> ''v1'') (videos state1)
    \<and> handle env0 (DELETE_videos ''v1'') (snd (handle env0 (DELETE_videos ''v1'') state1)) =
      (Response 404 (Error_body ''Video not found''),
       snd (handle env0 (DELETE_videos ''v1'') state1))"
    by blast
  from m p c v show ?thesis
    by (simp add: f)
qed

section \<open>Create, then List\<close>

text \<open>
  C7. A valid Create (one to five files for a project, one file for a carousel image,
  url and title that pass the checks for a video; the JSON file writable) answers 201
  with the new record, and the List that follows answers 200 with the old array followed
  by that same record, and returns the state it was given.
\<close>

theorem create_then_list:
  "(ups \<noteq> [] \<and> length ups \<le> 5 \<and> projectsDbPath e \<notin> write_denied (disk s) \<longrightarrow>
      (\<exists>p s1. handle e (POST_projects ttl descr ups) s = (Response 201 (Project_body p), s1)
         \<and> handle e GET_projects s1 = (Response 200 (Projects_body (projects s @ [p])), s1)))
   \<and> (length ups = 1 \<and> carouselDbPath e \<notin> write_denied (disk s) \<longrightarrow>
      (\<exists>c s1. handle e (POST_carousel_images ups) s = (Response 201 (Carousel_body c), s1)
         \<and> handle e GET_carousel_images s1 =
             (Response 200 (Carousel_list_body (carouselImages s @ [c])), s1)))
   \<and> (truthy u \<and> truthy vt \<and> url_parses e (the u) \<and> videosDbPath e \<notin> write_denied (disk s) \<longrightarrow>
      (\<exists>v s1. handle e (POST_videos u vt) s = (Response 201 (Video_body v), s1)
         \<and> handle e GET_videos s1 = (Response 200 (Videos_body (videos s @ [v])), s1)))"
proof (intro conjI impI)
  assume a: "ups \<noteq> [] \<and> length ups \<le> 5 \<and> projectsDbPath e \<notin> write_denied (disk s)"
  obtain fs s0 where ds: "disk_storage e ups s = (fs, s0)"
    by (cases "disk_storage e ups s")
  from disk_storage_fields [OF ds] a have f: "fs \<noteq> []" "projects s0 = projects s"
    "projectsDbPath e \<notin> write_denied (disk s0)"
    by auto
  show "\<exists>p s1. handle e (POST_projects ttl descr ups) s = (Response 201 (Project_body p), s1)
         \<and> handle e GET_projects s1 = (Response 200 (Projects_body (projects s @ [p])), s1)"
    using a f ds
    by (simp add: handle_def multer_array_accepts post_projects_def Let_def saveProjects_ok
        get_projects_def)
next
  assume a: "length ups = 1 \<and> carouselDbPath e \<notin> write_denied (disk s)"
  obtain fs s0 where ds: "disk_storage e ups s = (fs, s0)"
    by (cases "disk_storage e ups s")
  from disk_storage_fields [OF ds] a have f: "length fs = 1" "carouselImages s0 = carouselImages s"
    "carouselDbPath e \<notin> write_denied (disk s0)"
    by auto
  then obtain f0 where fs: "fs = [f0]"
    by (cases fs) auto
  show "\<exists>c s1. handle e (POST_carousel_images ups) s = (Response 201 (Carousel_body c), s1)
         \<and> handle e GET_carousel_images s1 =
             (Response 200 (Carousel_list_body (carouselImages s @ [c])), s1)"
    using a f ds fs
    by (simp add: handle_def multer_array_accepts post_carousel_images_def Let_def
        saveCarouselImages_ok get_carousel_images_def)
next
  assume "truthy u \<and> truthy vt \<and> url_parses e (the u) \<and> videosDbPath e \<notin> write_denied (disk s)"
  then show "\<exists>v s1. handle e (POST_videos u vt) s = (Response 201 (Video_body v), s1)
         \<and> handle e GET_videos s1 = (Response 200 (Videos_body (videos s @ [v])), s1)"
    by (simp add: handle_def post_videos_def Let_def saveVideos_ok get_videos_def)
qed

theorem create_then_list_witness:
  "(\<exists>p s1. handle env0 (POST_projects (Some ''Bridge'') (Some ''Steel truss'')
               [\<lparr>originalname = ''a.png'', bytes = ''A''\<rparr>, \<lparr>originalname = ''b.jpg'', bytes = ''B''\<rparr>])
             state0 = (Response 201 (Project_body p), s1)
         \<and> handle env0 GET_projects s1 = (Response 200 (Projects_body (projects state0 @ [p])), s1))
   \<and> (\<exists>c s1. handle env0 (POST_carousel_images [\<lparr>originalname = ''c.jpg'', bytes = ''C''\<rparr>]) state1
             = (Response 201 (Carousel_body c), s1)
         \<and> handle env0 GET_carousel_images s1 =
             (Response 200 (Carousel_list_body (carouselImages state1 @ [c])), s1))
   \<and> (\<exists>v s1. handle env0 (POST_videos (Some ''https://example.org/w'') (Some ''Tour'')) state1
             = (Response 201 (Video_body v), s1)
         \<and> handle env0 GET_videos s1 = (Response 200 (Videos_body (videos state1 @ [v])), s1))"
proof -
  let ?ups = "[\<lparr>originalname = ''a.png'', bytes = ''A''\<rparr>, \<lparr>originalname = ''b.jpg'', bytes = ''B''\<rparr>]"
  let ?one = "[\<lparr>originalname = ''c.jpg'', bytes = ''C''\<rparr>]"
  have h1: "?ups \<noteq> [] \<and> length ?ups \<le> 5 \<and> projectsDbPath env0 \<notin> write_denied (disk state0)"
    by (simp add: example_defs)
  have h2: "length ?one = 1 \<and> carouselDbPath env0 \<notin> write_denied (disk state1)"
    by (simp add: example_defs)
  have h3: "truthy (Some ''https://example.org/w'') \<and> truthy (Some ''Tour'')
     \<and> url_parses env0 (the (Some ''https://example.org/w''))
     \<and> videosDbPath env0 \<notin> write_denied (disk state1)"
    by (simp add: example_defs)
  from create_then_list [of ?ups env0 state0 "Some ''Bridge''" "Some ''Steel truss''" None None] h1
    create_then_list [of ?one env0 state1 None None "Some ''https://example.org/w''" "Some ''Tour''"]
    h2 h3
  show ?thesis by blast
qed

section \<open>Write-through persistence\<close>

lemma saveProjects_written:
  "saveProjects e s = Inr s1 \<Longrightarrow>
     contents (disk s1) (projectsDbPath e) = Some (Json_projects (projects s1))"
  by (auto simp: saveProjects_def writeFileSync_def split: sum.splits if_splits)

lemma saveCarouselImages_written:
  "saveCarouselImages e s = Inr s1 \<Longrightarrow>
     contents (disk s1) (carouselDbPath e) = Some (Json_carousel (carouselImages s1))"
  by (auto simp: saveCarouselImages_def writeFileSync_def split: sum.splits if_splits)

lemma saveVideos_written:
  "saveVideos e s = Inr s1 \<Longrightarrow>
     contents (disk s1) (videosDbPath e) = Some (Json_videos (videos s1))"
  by (auto simp: saveVideos_def writeFileSync_def split: sum.splits if_splits)

lemma post_projects_written:
  "post_projects e ttl descr files s = (Inr (Response st b), s1) \<Longrightarrow> st \<noteq> 400 \<Longrightarrow>
     on_disk e Projects s1 = Some (in_memory Projects s1)"
  by (auto simp: post_projects_def Let_def dest: saveProjects_written
      split: if_splits sum.splits)

lemma put_projects_written:
  "put_projects e i ttl descr files s = (Inr (Response st b), s1) \<Longrightarrow> st \<noteq> 404 \<Longrightarrow>
     on_disk e Projects s1 = Some (in_memory Projects s1)"
  by (auto simp: put_projects_def Let_def dest: saveProjects_written
      split: option.splits if_splits sum.splits prod.splits)

lemma delete_projects_written:
  "delete_projects e i s = (Inr (Response st b), s1) \<Longrightarrow> st \<noteq> 404 \<Longrightarrow>
     on_disk e Projects s1 = Some (in_memory Projects s1)"
  by (auto simp: delete_projects_def Let_def dest: saveProjects_written
      split: option.splits if_splits sum.splits prod.splits)

lemma post_carousel_images_written:
  "post_carousel_images e file s = (Inr (Response st b), s1) \<Longrightarrow> st \<noteq> 400 \<Longrightarrow>
     on_disk e CarouselImages s1 = Some (in_memory CarouselImages s1)"
  by (auto simp: post_carousel_images_def Let_def dest: saveCarouselImages_written
      split: option.splits if_splits sum.splits)

lemma delete_carousel_images_written:
  "delete_carousel_images e i s = (Inr (Response st b), s1) \<Longrightarrow> st \<noteq> 404 \<Longrightarrow>
     on_disk e CarouselImages s1 = Some (in_memory CarouselImages s1)"
  by (auto simp: delete_carousel_images_def Let_def dest: saveCarouselImages_written
      split: option.splits if_splits sum.splits prod.splits)

lemma post_videos_written:
  "post_videos e u ttl s = (Inr (Response st b), s1) \<Longrightarrow> st \<noteq> 400 \<Longrightarrow>
     on_disk e Videos s1 = Some (in_memory Videos s1)"
  by (auto simp: post_videos_def Let_def dest: saveVideos_written
      split: if_splits sum.splits)

lemma delete_videos_written:
  "delete_videos e i s = (Inr (Response st b), s1) \<Longrightarrow> st \<noteq> 404 \<Longrightarrow>
     on_disk e Videos s1 = Some (in_memory Videos s1)"
  by (auto simp: delete_videos_def Let_def dest: saveVideos_written
      split: option.splits if_splits sum.splits)

lemma multer_array_cases:
  "(n < length ups \<and>
      multer_array e n ups s =
        (Inl (MulterError ''Unexpected field''), s\<lparr>uuid_calls := uuid_calls s + n\<rparr>))
   \<or> (length ups \<le> n \<and>
      multer_array e n ups s = (Inr (fst (disk_storage e ups s)), snd (disk_storage e ups s)))"
  by (cases "length ups \<le> n") (simp_all add: multer_array_def split: prod.splits)

lemma route_written:
  assumes "route e r s = (Inr (Response st b), s1)" and "st \<noteq> 400" and "st \<noteq> 404"
    and "target r = Some c"
  shows "on_disk e c s1 = Some (in_memory c s1)"
proof (cases r)
  case (POST_projects ttl descr ups)
  with assms(1) multer_array_cases [of 5 ups e s]
  have "post_projects e ttl descr (fst (disk_storage e ups s)) (snd (disk_storage e ups s)) =
      (Inr (Response st b), s1)"
    by auto
  from post_projects_written [OF this assms(2)] POST_projects assms(4) show ?thesis
    by simp
next
  case (PUT_projects i ttl descr ups)
  with assms(1) multer_array_cases [of 5 ups e s]
  have "put_projects e i ttl descr (fst (disk_storage e ups s)) (snd (disk_storage e ups s)) =
      (Inr (Response st b), s1)"
    by auto
  from put_projects_written [OF this assms(3)] PUT_projects assms(4) show ?thesis
    by simp
next
  case (DELETE_projects i)
  with assms(1) have "delete_projects e i s = (Inr (Response st b), s1)"
    by simp
  from delete_projects_written [OF this assms(3)] DELETE_projects assms(4) show ?thesis
    by simp
next
  case (POST_carousel_images ups)
  with assms(1) multer_array_cases [of 1 ups e s]
  have "post_carousel_images e
      (case fst (disk_storage e ups s) of [] \<Rightarrow> None | f # x \<Rightarrow> Some f)
      (snd (disk_storage e ups s)) = (Inr (Response st b), s1)"
    by auto
  from post_carousel_images_written [OF this assms(2)] POST_carousel_images assms(4)
  show ?thesis
    by simp
next
  case (DELETE_carousel_images i)
  with assms(1) have "delete_carousel_images e i s = (Inr (Response st b), s1)"
    by simp
  from delete_carousel_images_written [OF this assms(3)] DELETE_carousel_images assms(4)
  show ?thesis
    by simp
next
  case (POST_videos u ttl)
  with assms(1) have "post_videos e u ttl s = (Inr (Response st b), s1)"
    by simp
  from post_videos_written [OF this assms(2)] POST_videos assms(4) show ?thesis
    by simp
next
  case (DELETE_videos i)
  with assms(1) have "delete_videos e i s = (Inr (Response st b), s1)"
    by simp
  from delete_videos_written [OF this assms(3)] DELETE_videos assms(4) show ?thesis
    by simp
qed (use assms(4) in simp_all)

lemma handle_not_thrown:
  assumes "status (fst (handle e r s)) \<noteq> 400" and "status (fst (handle e r s)) \<noteq> 500"
  shows "route e r s = (Inr (fst (handle e r s)), snd (handle e r s))"
proof (cases "route e r s")
  case (Pair x s1)
  show ?thesis
  proof (cases x)
    case (Inl a)
    with Pair assms show ?thesis
      by (cases a) (simp_all add: handle_def)
  next
    case (Inr resp)
    with Pair show ?thesis
      by (simp add: handle_def)
  qed
qed

lemma upload_path_not_db:
  "path_join (uploadDir e) fname \<noteq> projectsDbPath e"
  "path_join (uploadDir e) fname \<noteq> carouselDbPath e"
  "path_join (uploadDir e) fname \<noteq> videosDbPath e"
  by (simp_all add: path_defs)

lemma disk_storage_elsewhere:
  "disk_storage e ups s = (fs, s1) \<Longrightarrow>
   p \<notin> (\<lambda>f. path_join (uploadDir e) (filename f)) ` set fs \<Longrightarrow>
   contents (disk s1) p = contents (disk s) p"
proof (induction ups arbitrary: s fs s1)
  case Nil
  then show ?case by simp
next
  case (Cons u us)
  then show ?case
    by (auto simp: Let_def split: prod.splits)
qed

lemma disk_storage_stored:
  "disk_storage e ups s = (fs, s1) \<Longrightarrow> f \<in> set fs \<Longrightarrow>
   contents (disk s1) (path_join (uploadDir e) (filename f)) \<noteq> None"
proof (induction ups arbitrary: s fs s1 f)
  case Nil
  then show ?case by simp
next
  case (Cons u us)
  let ?n = "uuidv4 e (uuid_calls s) @ extname e (originalname u)"
  let ?s0 = "s\<lparr>disk := (disk s)\<lparr>contents :=
                      (contents (disk s))(path_join (uploadDir e) ?n \<mapsto> Bytes (bytes u))\<rparr>,
                 uuid_calls := Suc (uuid_calls s)\<rparr>"
  obtain fs0 s2 where rest: "disk_storage e us ?s0 = (fs0, s2)"
    by (cases "disk_storage e us ?s0")
  with Cons.prems(1) have fs: "fs = \<lparr>filename = ?n\<rparr> # fs0" and s1: "s1 = s2"
    by (simp_all add: Let_def)
  show ?case
  proof (cases "f \<in> set fs0")
    case True
    from Cons.IH [OF rest True] s1 show ?thesis by simp
  next
    case False
    with Cons.prems(2) fs have f: "filename f = ?n"
      by auto
    show ?thesis
    proof (cases "path_join (uploadDir e) ?n \<in> (\<lambda>f. path_join (uploadDir e) (filename f)) ` set fs0")
      case True
      then obtain g where "g \<in> set fs0" "path_join (uploadDir e) ?n = path_join (uploadDir e) (filename g)"
        by auto
      with Cons.IH [OF rest, of g] s1 f show ?thesis by simp
    next
      case False
      from disk_storage_elsewhere [OF rest False] s1 f show ?thesis
        by simp
    qed
  qed
qed

lemma disk_storage_db:
  "disk_storage e ups s = (fs, s1) \<Longrightarrow> on_disk e c s1 = on_disk e c s"
  by (cases c)
    (auto intro!: disk_storage_elsewhere simp: upload_path_not_db upload_path_not_db [symmetric])

lemma multer_array_keeps:
  assumes "multer_array e n ups s = (x, s1)"
  shows "projects s1 = projects s \<and> carouselImages s1 = carouselImages s \<and> videos s1 = videos s
     \<and> on_disk e c s1 = on_disk e c s"
proof (cases "n < length ups")
  case True
  with assms have "s1 = s\<lparr>uuid_calls := uuid_calls s + n\<rparr>"
    by (simp add: multer_array_def)
  then show ?thesis
    by (cases c) simp_all
next
  case False
  obtain fs s0 where ds: "disk_storage e ups s = (fs, s0)"
    by (cases "disk_storage e ups s")
  with False assms have "s1 = s0"
    by (simp add: multer_array_def)
  with disk_storage_fields [OF ds] disk_storage_db [OF ds, of c] show ?thesis
    by simp
qed

lemma post_projects_refused:
  "post_projects e ttl descr files s = (Inr (Response st b), s1) \<Longrightarrow> st \<noteq> 201 \<Longrightarrow> s1 = s"
  by (auto simp: post_projects_def Let_def split: if_splits sum.splits)

lemma put_projects_refused:
  "put_projects e i ttl descr files s = (Inr (Response st b), s1) \<Longrightarrow> st \<noteq> 200 \<Longrightarrow> s1 = s"
  by (auto simp: put_projects_def Let_def split: option.splits if_splits sum.splits prod.splits)

lemma delete_projects_refused:
  "delete_projects e i s = (Inr (Response st b), s1) \<Longrightarrow> st \<noteq> 200 \<Longrightarrow> s1 = s"
  by (auto simp: delete_projects_def Let_def split: option.splits if_splits sum.splits prod.splits)

lemma post_carousel_images_refused:
  "post_carousel_images e file s = (Inr (Response st b), s1) \<Longrightarrow> st \<noteq> 201 \<Longrightarrow> s1 = s"
  by (auto simp: post_carousel_images_def Let_def split: option.splits sum.splits)

lemma delete_carousel_images_refused:
  "delete_carousel_images e i s = (Inr (Response st b), s1) \<Longrightarrow> st \<noteq> 200 \<Longrightarrow> s1 = s"
  by (auto simp: delete_carousel_images_def Let_def
      split: option.splits if_splits sum.splits prod.splits)

lemma post_videos_refused:
  "post_videos e u ttl s = (Inr (Response st b), s1) \<Longrightarrow> st \<noteq> 201 \<Longrightarrow> s1 = s"
  by (auto simp: post_videos_def Let_def split: if_splits sum.splits)

lemma delete_videos_refused:
  "delete_videos e i s = (Inr (Response st b), s1) \<Longrightarrow> st \<noteq> 200 \<Longrightarrow> s1 = s"
  by (auto simp: delete_videos_def Let_def split: option.splits sum.splits)

text \<open>
  A request answered 400 or 404 by its handler leaves the handler's input state as it
  was; the uploads of the request, if any, were stored before.
\<close>

lemma route_refused:
  assumes "route e r s = (Inr (Response st b), s1)" and "st \<noteq> 200" and "st \<noteq> 201"
  shows "s1 = s \<or> (\<exists>n ups x. multer_array e n ups s = (x, s1))"
proof (cases r)
  case (POST_projects ttl descr ups)
  with assms(1) obtain fs s0 where m: "multer_array e 5 ups s = (Inr fs, s0)"
    and h: "post_projects e ttl descr fs s0 = (Inr (Response st b), s1)"
    by (auto split: prod.splits sum.splits)
  from post_projects_refused [OF h assms(3)] m show ?thesis by blast
next
  case (PUT_projects i ttl descr ups)
  with assms(1) obtain fs s0 where m: "multer_array e 5 ups s = (Inr fs, s0)"
    and h: "put_projects e i ttl descr fs s0 = (Inr (Response st b), s1)"
    by (auto split: prod.splits sum.splits)
  from put_projects_refused [OF h assms(2)] m show ?thesis by blast
next
  case (POST_carousel_images ups)
  with assms(1) obtain fs s0 where m: "multer_array e 1 ups s = (Inr fs, s0)"
    and h: "post_carousel_images e (case fs of [] \<Rightarrow> None | f # x \<Rightarrow> Some f) s0 =
        (Inr (Response st b), s1)"
    by (auto split: prod.splits sum.splits)
  from post_carousel_images_refused [OF h assms(3)] m show ?thesis by blast
next
  case GET_projects
  with assms show ?thesis by (auto simp: get_projects_def)
next
  case GET_carousel_images
  with assms show ?thesis by (auto simp: get_carousel_images_def)
next
  case GET_videos
  with assms show ?thesis by (auto simp: get_videos_def)
next
  case (DELETE_projects i)
  with assms show ?thesis by (auto dest: delete_projects_refused)
next
  case (DELETE_carousel_images i)
  with assms show ?thesis by (auto dest: delete_carousel_images_refused)
next
  case (POST_videos u ttl)
  with assms show ?thesis by (auto dest: post_videos_refused)
next
  case (DELETE_videos i)
  with assms show ?thesis by (auto dest: delete_videos_refused)
qed

lemma route_thrown_multer:
  "route e r s = (Inl (MulterError m), s1) \<Longrightarrow> \<exists>n ups x. multer_array e n ups s = (x, s1)"
proof (cases r)
  case (POST_projects ttl descr ups)
  assume "route e r s = (Inl (MulterError m), s1)"
  with POST_projects show ?thesis
    by (auto simp: post_projects_def Let_def split: prod.splits sum.splits if_splits)
next
  case (PUT_projects i ttl descr ups)
  assume "route e r s = (Inl (MulterError m), s1)"
  with PUT_projects show ?thesis
    by (auto simp: put_projects_def Let_def split: prod.splits sum.splits if_splits option.splits)
next
  case (POST_carousel_images ups)
  assume "route e r s = (Inl (MulterError m), s1)"
  with POST_carousel_images show ?thesis
    by (auto simp: post_carousel_images_def Let_def
        split: prod.splits sum.splits if_splits option.splits)
qed (auto simp: get_projects_def get_carousel_images_def get_videos_def delete_projects_def
    delete_carousel_images_def post_videos_def delete_videos_def Let_def
    split: prod.splits sum.splits if_splits option.splits)

text \<open>
  When the file system refuses nothing a handler asks for, no handler throws.
\<close>

lemma refs_of_project:
  "k < length (projects s) \<Longrightarrow> set (imageUrls (projects s ! k)) \<subseteq> set (image_refs s)"
  by (auto simp: image_refs_def)

lemma refs_of_image:
  "k < length (carouselImages s) \<Longrightarrow> url (carouselImages s ! k) \<in> set (image_refs s)"
  by (simp add: image_refs_def)

lemma unlink_images_permitted:
  assumes "\<forall>u\<in>set us. localPath e u \<notin> unlink_denied fs"
  shows "unlink_images e us fs =
     (None, fs\<lparr>contents := contents fs |` (- localPath e ` set us)\<rparr>)"
  using assms by (intro unlink_images_ok) simp

lemma post_projects_permitted:
  assumes "projectsDbPath e \<notin> write_denied (disk s)"
  shows "\<exists>resp s1. post_projects e ttl descr files s = (Inr resp, s1) \<and> status resp \<in> {201, 400}"
  using assms by (simp add: post_projects_def Let_def saveProjects_ok)

lemma put_projects_permitted:
  assumes w: "projectsDbPath e \<notin> write_denied (disk s)"
    and u: "\<forall>u\<in>set (image_refs s). localPath e u \<notin> unlink_denied (disk s)"
  shows "\<exists>resp s1. put_projects e i ttl descr files s = (Inr resp, s1) \<and> status resp \<in> {200, 404}"
proof (cases "findIndex (\<lambda>p. pid p = i) (projects s)")
  case None
  then show ?thesis by (simp add: put_projects_def)
next
  case (Some k)
  from findIndex_Some_lt [OF Some] refs_of_project [of k s] u
  have "\<forall>u\<in>set (imageUrls (projects s ! k)). localPath e u \<notin> unlink_denied (disk s)"
    by blast
  from unlink_images_permitted [OF this] Some w show ?thesis
    by (simp add: put_projects_def Let_def saveProjects_ok)
qed

lemma delete_projects_permitted:
  assumes w: "projectsDbPath e \<notin> write_denied (disk s)"
    and u: "\<forall>u\<in>set (image_refs s). localPath e u \<notin> unlink_denied (disk s)"
  shows "\<exists>resp s1. delete_projects e i s = (Inr resp, s1) \<and> status resp \<in> {200, 404}"
proof (cases "findIndex (\<lambda>p. pid p = i) (projects s)")
  case None
  then show ?thesis by (simp add: delete_projects_def)
next
  case (Some k)
  from findIndex_Some_lt [OF Some] refs_of_project [of k s] u
  have "\<forall>u\<in>set (imageUrls (projects s ! k)). localPath e u \<notin> unlink_denied (disk s)"
    by blast
  from unlink_images_permitted [OF this] Some w show ?thesis
    by (simp add: delete_projects_def Let_def saveProjects_ok)
qed

lemma post_carousel_images_permitted:
  assumes "carouselDbPath e \<notin> write_denied (disk s)"
  shows "\<exists>resp s1. post_carousel_images e f0 s = (Inr resp, s1) \<and> status resp \<in> {201, 400}"
  using assms
  by (cases f0) (simp_all add: post_carousel_images_def Let_def saveCarouselImages_ok)

lemma delete_carousel_images_permitted:
  assumes w: "carouselDbPath e \<notin> write_denied (disk s)"
    and u: "\<forall>u\<in>set (image_refs s). localPath e u \<notin> unlink_denied (disk s)"
  shows "\<exists>resp s1. delete_carousel_images e i s = (Inr resp, s1) \<and> status resp \<in> {200, 404}"
proof (cases "findIndex (\<lambda>c. c_id c = i) (carouselImages s)")
  case None
  then show ?thesis by (simp add: delete_carousel_images_def)
next
  case (Some k)
  from findIndex_Some_lt [OF Some] refs_of_image [of k s] u
  have "\<forall>u\<in>set [url (carouselImages s ! k)]. localPath e u \<notin> unlink_denied (disk s)"
    by simp
  from unlink_images_permitted [OF this] Some w show ?thesis
    by (simp del: unlink_images.simps add: delete_carousel_images_def Let_def
        saveCarouselImages_ok)
qed

lemma post_videos_permitted:
  assumes "videosDbPath e \<notin> write_denied (disk s)"
  shows "\<exists>resp s1. post_videos e u ttl s = (Inr resp, s1) \<and> status resp \<in> {201, 400}"
  using assms by (simp add: post_videos_def Let_def saveVideos_ok)

lemma delete_videos_permitted:
  assumes "videosDbPath e \<notin> write_denied (disk s)"
  shows "\<exists>resp s1. delete_videos e i s = (Inr resp, s1) \<and> status resp \<in> {200, 404}"
  using assms
  by (cases "findIndex (\<lambda>v. v_id v = i) (videos s)")
    (simp_all add: delete_videos_def Let_def saveVideos_ok)

text \<open>
  The upload middleware changes neither what the file system refuses nor the records,
  so a handler that runs after it is permitted what it was permitted before.
\<close>

lemma multer_array_permitted:
  assumes m: "multer_array e n ups s = (Inr fs, s0)"
  shows "write_denied (disk s0) = write_denied (disk s)
     \<and> unlink_denied (disk s0) = unlink_denied (disk s) \<and> image_refs s0 = image_refs s"
proof -
  obtain fs1 s1 where ds: "disk_storage e ups s = (fs1, s1)"
    by (cases "disk_storage e ups s")
  with m have "s0 = s1"
    by (auto simp: multer_array_def split: if_splits)
  with disk_storage_fields [OF ds] show ?thesis
    by (simp add: image_refs_def)
qed

lemma route_permitted:
  assumes t: "target r = Some c"
    and w: "db_path e c \<notin> write_denied (disk s)"
    and u: "\<forall>u\<in>set (image_refs s). localPath e u \<notin> unlink_denied (disk s)"
  shows "status (fst (handle e r s)) \<in> {200, 201, 400, 404}"
proof (cases r)
  case (POST_projects ttl descr ups)
  with t w have w: "projectsDbPath e \<notin> write_denied (disk s)" by auto
  obtain x s0 where m: "multer_array e 5 ups s = (x, s0)"
    by (cases "multer_array e 5 ups s")
  show ?thesis
  proof (cases x)
    case (Inl ex)
    with m have "ex = MulterError ''Unexpected field''"
      by (auto simp: multer_array_def split: if_splits prod.splits)
    with Inl m POST_projects show ?thesis
      by (simp add: handle_def)
  next
    case (Inr fs)
    with m multer_array_permitted [of e 5 ups s fs s0] w
    have "projectsDbPath e \<notin> write_denied (disk s0)" by simp
    from post_projects_permitted [OF this, of ttl descr fs] Inr m POST_projects show ?thesis
      by (auto simp: handle_def)
  qed
next
  case (PUT_projects i ttl descr ups)
  with t w have w: "projectsDbPath e \<notin> write_denied (disk s)" by auto
  obtain x s0 where m: "multer_array e 5 ups s = (x, s0)"
    by (cases "multer_array e 5 ups s")
  show ?thesis
  proof (cases x)
    case (Inl ex)
    with m have "ex = MulterError ''Unexpected field''"
      by (auto simp: multer_array_def split: if_splits prod.splits)
    with Inl m PUT_projects show ?thesis
      by (simp add: handle_def)
  next
    case (Inr fs)
    with m multer_array_permitted [of e 5 ups s fs s0] w u
    have "projectsDbPath e \<notin> write_denied (disk s0)"
      and "\<forall>u\<in>set (image_refs s0). localPath e u \<notin> unlink_denied (disk s0)"
      by simp_all
    from put_projects_permitted [OF this, of i ttl descr fs] Inr m PUT_projects show ?thesis
      by (auto simp: handle_def)
  qed
next
  case (POST_carousel_images ups)
  with t w have w: "carouselDbPath e \<notin> write_denied (disk s)" by auto
  obtain x s0 where m: "multer_array e 1 ups s = (x, s0)"
    by (cases "multer_array e 1 ups s")
  show ?thesis
  proof (cases x)
    case (Inl ex)
    with m have "ex = MulterError ''Unexpected field''"
      by (auto simp: multer_array_def split: if_splits prod.splits)
    with Inl m POST_carousel_images show ?thesis
      by (simp add: handle_def)
  next
    case (Inr fs)
    with m multer_array_permitted [of e 1 ups s fs s0] w
    have "carouselDbPath e \<notin> write_denied (disk s0)" by simp
    from post_carousel_images_permitted [OF this, of "case fs of [] \<Rightarrow> None | f # x \<Rightarrow> Some f"]
      Inr m POST_carousel_images
    show ?thesis
      by (auto simp: handle_def)
  qed
next
  case (DELETE_projects i)
  with t w have "projectsDbPath e \<notin> write_denied (disk s)" by auto
  from delete_projects_permitted [OF this u, of i] DELETE_projects show ?thesis
    by (auto simp: handle_def)
next
  case (DELETE_carousel_images i)
  with t w have "carouselDbPath e \<notin> write_denied (disk s)" by auto
  from delete_carousel_images_permitted [OF this u, of i] DELETE_carousel_images show ?thesis
    by (auto simp: handle_def)
next
  case (POST_videos v ttl)
  with t w have "videosDbPath e \<notin> write_denied (disk s)" by auto
  from post_videos_permitted [OF this, of v ttl] POST_videos show ?thesis
    by (auto simp: handle_def)
next
  case (DELETE_videos i)
  with t w have "videosDbPath e \<notin> write_denied (disk s)" by auto
  from delete_videos_permitted [OF this, of i] DELETE_videos show ?thesis
    by (auto simp: handle_def)
qed (use t in simp_all)

text \<open>
  C8 does not hold as stated. In the example state, with b.png of project p1 not
  deletable, an Update of p1 with a new title and a file assigns the title in memory,
  fails on b.png and answers 500: the array in memory has the new title and
  projects.json still has the old one. With projects.json not writable, a Create appends
  the record in memory, fails in saveProjects and answers 500: three projects in memory,
  two in the file.
\<close>

theorem write_through_counterexample:
  "status (fst (handle env0
      (PUT_projects ''p1'' (Some ''Pier'') None [\<lparr>originalname = ''n.png'', bytes = ''N''\<rparr>])
      (state1\<lparr>disk := disk1\<lparr>unlink_denied := {''/app/uploads/b.png''}\<rparr>\<rparr>))) = 500
   \<and> in_memory Projects (snd (handle env0
      (PUT_projects ''p1'' (Some ''Pier'') None [\<lparr>originalname = ''n.png'', bytes = ''N''\<rparr>])
      (state1\<lparr>disk := disk1\<lparr>unlink_denied := {''/app/uploads/b.png''}\<rparr>\<rparr>))) =
       Json_projects [project1\<lparr>title := Some ''Pier''\<rparr>, project2]
   \<and> on_disk env0 Projects (snd (handle env0
      (PUT_projects ''p1'' (Some ''Pier'') None [\<lparr>originalname = ''n.png'', bytes = ''N''\<rparr>])
      (state1\<lparr>disk := disk1\<lparr>unlink_denied := {''/app/uploads/b.png''}\<rparr>\<rparr>))) =
       Some (Json_projects [project1, project2])
   \<and> on_disk env0 Projects (snd (handle env0
      (PUT_projects ''p1'' (Some ''Pier'') None [\<lparr>originalname = ''n.png'', bytes = ''N''\<rparr>])
      (state1\<lparr>disk := disk1\<lparr>unlink_denied := {''/app/uploads/b.png''}\<rparr>\<rparr>))) \<noteq>
       Some (in_memory Projects (snd (handle env0
      (PUT_projects ''p1'' (Some ''Pier'') None [\<lparr>originalname = ''n.png'', bytes = ''N''\<rparr>])
      (state1\<lparr>disk := disk1\<lparr>unlink_denied := {''/app/uploads/b.png''}\<rparr>\<rparr>))))
   \<and> status (fst (handle env0
      (POST_projects (Some ''Mast'') None [\<lparr>originalname = ''m.png'', bytes = ''M''\<rparr>])
      (state1\<lparr>disk := disk1\<lparr>write_denied := {''/app/projects.json''}\<rparr>\<rparr>))) = 500
   \<and> length (projects (snd (handle env0
      (POST_projects (Some ''Mast'') None [\<lparr>originalname = ''m.png'', bytes = ''M''\<rparr>])
      (state1\<lparr>disk := disk1\<lparr>write_denied := {''/app/projects.json''}\<rparr>\<rparr>)))) = 3
   \<and> on_disk env0 Projects (snd (handle env0
      (POST_projects (Some ''Mast'') None [\<lparr>originalname = ''m.png'', bytes = ''M''\<rparr>])
      (state1\<lparr>disk := disk1\<lparr>write_denied := {''/app/projects.json''}\<rparr>\<rparr>))) =
       Some (Json_projects [project1, project2])"
proof -
  let ?put = "PUT_projects ''p1'' (Some ''Pier'') None [\<lparr>originalname = ''n.png'', bytes = ''N''\<rparr>]"
  let ?s = "state1\<lparr>disk := disk1\<lparr>unlink_denied := {''/app/uploads/b.png''}\<rparr>\<rparr>"
  let ?post = "POST_projects (Some ''Mast'') None [\<lparr>originalname = ''m.png'', bytes = ''M''\<rparr>]"
  let ?t = "state1\<lparr>disk := disk1\<lparr>write_denied := {''/app/projects.json''}\<rparr>\<rparr>"
  have a: "status (fst (handle env0 ?put ?s)) = 500"
    by (simp add: example_defs path_defs fs_defs handler_defs Let_def)
  have b: "in_memory Projects (snd (handle env0 ?put ?s)) =
      Json_projects [project1\<lparr>title := Some ''Pier''\<rparr>, project2]"
    by (simp add: example_defs path_defs fs_defs handler_defs Let_def)
  have c: "on_disk env0 Projects (snd (handle env0 ?put ?s)) =
      Some (Json_projects [project1, project2])"
    by (simp add: example_defs path_defs fs_defs handler_defs Let_def)
  have "project1\<lparr>title := Some ''Pier''\<rparr> \<noteq> project1"
    by (simp add: project1_def)
  with b c have d: "on_disk env0 Projects (snd (handle env0 ?put ?s)) \<noteq>
      Some (in_memory Projects (snd (handle env0 ?put ?s)))"
    by simp
  have e: "status (fst (handle env0 ?post ?t)) = 500"
    by (simp add: example_defs path_defs fs_defs handler_defs Let_def)
  have f: "length (projects (snd (handle env0 ?post ?t))) = 3"
    by (simp add: example_defs path_defs fs_defs handler_defs Let_def)
  have g: "on_disk env0 Projects (snd (handle env0 ?post ?t)) =
      Some (Json_projects [project1, project2])"
    by (simp add: example_defs path_defs fs_defs handler_defs Let_def)
  from a b c d e f g show ?thesis
    by simp
qed

text \<open>
  C8, in the form that holds. A Create, Update or Delete that is not turned down with 400
  or 404 answers 200 or 201 and leaves in the JSON file of its collection the text of the
  array then in memory, provided the file system refuses neither the writing of that
  file nor the deletion of a referenced image. Whenever such a request answers 200 or
  201, that file holds the array then in memory: the save function is called in the
  handler itself, after the mutation. When a request answers 400 or 404, the arrays in
  memory and the JSON files are as they were before. (A request that ends in 500 is the
  case above.)
\<close>

theorem write_through:
  "(target r = Some c \<and> db_path e c \<notin> write_denied (disk s)
      \<and> (\<forall>u\<in>set (image_refs s). localPath e u \<notin> unlink_denied (disk s))
      \<and> status (fst (handle e r s)) \<notin> {400, 404} \<longrightarrow>
      status (fst (handle e r s)) \<in> {200, 201}
      \<and> on_disk e c (snd (handle e r s)) = Some (in_memory c (snd (handle e r s))))
   \<and> (target r = Some c \<and> status (fst (handle e r s)) \<in> {200, 201} \<longrightarrow>
      on_disk e c (snd (handle e r s)) = Some (in_memory c (snd (handle e r s))))
   \<and> (status (fst (handle e r s)) \<in> {400, 404} \<longrightarrow>
      in_memory c (snd (handle e r s)) = in_memory c s
      \<and> on_disk e c (snd (handle e r s)) = on_disk e c s)"
proof -
  have written: "on_disk e c (snd (handle e r s)) = Some (in_memory c (snd (handle e r s)))"
    if a: "target r = Some c" "status (fst (handle e r s)) \<in> {200, 201}"
  proof -
    from a have st: "status (fst (handle e r s)) \<noteq> 400" "status (fst (handle e r s)) \<noteq> 404"
      "status (fst (handle e r s)) \<noteq> 500"
      by auto
    from handle_not_thrown [OF st(1) st(3)]
    have "route e r s =
        (Inr (Response (status (fst (handle e r s))) (body (fst (handle e r s)))),
         snd (handle e r s))"
      by simp
    from route_written [OF this st(1) st(2) a(1)] show ?thesis .
  qed
  have answered: "status (fst (handle e r s)) \<in> {200, 201}"
    if "target r = Some c" "db_path e c \<notin> write_denied (disk s)"
      "\<forall>u\<in>set (image_refs s). localPath e u \<notin> unlink_denied (disk s)"
      "status (fst (handle e r s)) \<notin> {400, 404}"
    using route_permitted [OF that(1) that(2) that(3)] that(4) by auto
  have kept: "in_memory c (snd (handle e r s)) = in_memory c s
      \<and> on_disk e c (snd (handle e r s)) = on_disk e c s"
    if a: "status (fst (handle e r s)) \<in> {400, 404}"
  proof -
    obtain x s1 where rt: "route e r s = (x, s1)"
      by (cases "route e r s")
    have "s1 = s \<or> (\<exists>n ups x. multer_array e n ups s = (x, s1))"
    proof (cases x)
      case (Inl ex)
      with a rt obtain m where "ex = MulterError m"
        by (cases ex) (auto simp: handle_def)
      with Inl rt route_thrown_multer show ?thesis by blast
    next
      case (Inr resp)
      with a rt have "status resp \<noteq> 200" "status resp \<noteq> 201"
        by (auto simp: handle_def)
      with route_refused [of e r s "status resp" "body resp" s1] Inr rt show ?thesis
        by simp
    qed
    with multer_array_keeps [of e _ _ s _ s1 c]
    have "in_memory c s1 = in_memory c s \<and> on_disk e c s1 = on_disk e c s"
      by (cases c) auto
    with rt show ?thesis
      by (simp add: snd_handle)
  qed
  from written answered kept show ?thesis
    by blast
qed

theorem write_through_witness:
  "status (fst (handle env0 (POST_carousel_images [\<lparr>originalname = ''e.jpg'', bytes = ''E''\<rparr>])
      state1)) \<in> {200, 201}
   \<and> on_disk env0 CarouselImages
       (snd (handle env0 (POST_carousel_images [\<lparr>originalname = ''e.jpg'', bytes = ''E''\<rparr>])
          state1)) =
     Some (in_memory CarouselImages
       (snd (handle env0 (POST_carousel_images [\<lparr>originalname = ''e.jpg'', bytes = ''E''\<rparr>])
          state1)))
   \<and> length (carouselImages
       (snd (handle env0 (POST_carousel_images [\<lparr>originalname = ''e.jpg'', bytes = ''E''\<rparr>])
          state1))) = 2
   \<and> status (fst (handle env0 (DELETE_carousel_images ''c1'') state1)) \<in> {200, 201}
   \<and> on_disk env0 CarouselImages (snd (handle env0 (DELETE_carousel_images ''c1'') state1)) =
     Some (Json_carousel [])
   \<and> status (fst (handle env0 (PUT_projects ''p1'' (Some ''Pier'') None
        [\<lparr>originalname = ''n.png'', bytes = ''N''\<rparr>]) state1)) \<in> {200, 201}
   \<and> on_disk env0 Projects
     (snd (handle env0 (PUT_projects ''p1'' (Some ''Pier'') None
        [\<lparr>originalname = ''n.png'', bytes = ''N''\<rparr>]) state1)) =
     Some (in_memory Projects
       (snd (handle env0 (PUT_projects ''p1'' (Some ''Pier'') None
          [\<lparr>originalname = ''n.png'', bytes = ''N''\<rparr>]) state1)))
   \<and> on_disk env0 Videos
     (snd (handle env0 (POST_videos (Some ''https://example.org/w'') (Some ''Tour'')) state1)) =
     Some (in_memory Videos
       (snd (handle env0 (POST_videos (Some ''https://example.org/w'') (Some ''Tour'')) state1)))
   \<and> in_memory Projects (snd (handle env0 (DELETE_projects ''nope'') state1)) =
       in_memory Projects state1
   \<and> on_disk env0 Projects (snd (handle env0 (DELETE_projects ''nope'') state1)) =
       on_disk env0 Projects state1"
proof -
  let ?pc = "POST_carousel_images [\<lparr>originalname = ''e.jpg'', bytes = ''E''\<rparr>]"
  let ?dc = "DELETE_carousel_images ''c1''"
  let ?put = "PUT_projects ''p1'' (Some ''Pier'') None [\<lparr>originalname = ''n.png'', bytes = ''N''\<rparr>]"
  let ?pv = "POST_videos (Some ''https://example.org/w'') (Some ''Tour'')"
  have free: "\<forall>u\<in>set (image_refs state1). localPath env0 u \<notin> unlink_denied (disk state1)"
    by (simp add: example_defs)
  have w: "db_path env0 CarouselImages \<notin> write_denied (disk state1)"
    "db_path env0 Projects \<notin> write_denied (disk state1)"
    "db_path env0 Videos \<notin> write_denied (disk state1)"
    by (simp_all add: example_defs)
  have t: "target ?pc = Some CarouselImages" "target ?dc = Some CarouselImages"
    "target ?put = Some Projects" "target ?pv = Some Videos"
    by simp_all
  have n: "status (fst (handle env0 ?pc state1)) \<notin> {400, 404}"
    "status (fst (handle env0 ?dc state1)) \<notin> {400, 404}"
    "status (fst (handle env0 ?put state1)) \<notin> {400, 404}"
    "status (fst (handle env0 ?pv state1)) \<notin> {400, 404}"
    by (simp_all add: example_defs path_defs fs_defs handler_defs Let_def)
  have len: "length (carouselImages (snd (handle env0 ?pc state1))) = 2"
    by (simp add: example_defs path_defs fs_defs handler_defs Let_def)
  have gone: "in_memory CarouselImages (snd (handle env0 ?dc state1)) = Json_carousel []"
    by (simp add: example_defs path_defs fs_defs handler_defs Let_def)
  have c: "status (fst (handle env0 (DELETE_projects ''nope'') state1)) \<in> {400, 404}"
    by (simp add: example_defs handler_defs)
  from write_through [of ?pc CarouselImages env0 state1] t(1) w(1) free n(1)
  have 1: "status (fst (handle env0 ?pc state1)) \<in> {200, 201}
     \<and> on_disk env0 CarouselImages (snd (handle env0 ?pc state1)) =
       Some (in_memory CarouselImages (snd (handle env0 ?pc state1)))"
    by blast
  from write_through [of ?dc CarouselImages env0 state1] t(2) w(1) free n(2)
  have 2: "status (fst (handle env0 ?dc state1)) \<in> {200, 201}
     \<and> on_disk env0 CarouselImages (snd (handle env0 ?dc state1)) =
       Some (in_memory CarouselImages (snd (handle env0 ?dc state1)))"
    by blast
  from write_through [of ?put Projects env0 state1] t(3) w(2) free n(3)
  have 3: "status (fst (handle env0 ?put state1)) \<in> {200, 201}
     \<and> on_disk env0 Projects (snd (handle env0 ?put state1)) =
       Some (in_memory Projects (snd (handle env0 ?put state1)))"
    by blast
  from write_through [of ?pv Videos env0 state1] t(4) w(3) free n(4)
  have 4: "on_disk env0 Videos (snd (handle env0 ?pv state1)) =
       Some (in_memory Videos (snd (handle env0 ?pv state1)))"
    by blast
  from write_through [of "DELETE_projects ''nope''" Projects env0 state1] c
  have 5: "in_memory Projects (snd (handle env0 (DELETE_projects ''nope'') state1)) =
       in_memory Projects state1
     \<and> on_disk env0 Projects (snd (handle env0 (DELETE_projects ''nope'') state1)) =
       on_disk env0 Projects state1"
    by blast
  from 1 2 3 4 5 len gone show ?thesis
    by simp
qed

section \<open>A file that cannot be deleted\<close>






section \<open>Identifiers\<close>

lemma saveProjects_uuid: "saveProjects e s = Inr s1 \<Longrightarrow> uuid_calls s1 = uuid_calls s"
  by (auto simp: saveProjects_def split: sum.splits)

lemma saveCarouselImages_uuid:
  "saveCarouselImages e s = Inr s1 \<Longrightarrow> uuid_calls s1 = uuid_calls s"
  by (auto simp: saveCarouselImages_def split: sum.splits)

lemma saveVideos_uuid: "saveVideos e s = Inr s1 \<Longrightarrow> uuid_calls s1 = uuid_calls s"
  by (auto simp: saveVideos_def split: sum.splits)

lemma token_from_later:
  assumes "token_from e s0 res" and "uuid_calls s \<le> uuid_calls s0"
  shows "token_from e s res"
  unfolding token_from_def
proof (intro conjI allI impI)
  from assms show "uuid_calls s \<le> uuid_calls (snd res)"
    by (simp add: token_from_def)
  fix resp i
  assume "fst res = Inr resp" "created_id resp = Some i"
  with assms(1) obtain n where "uuid_calls s0 \<le> n" "n < uuid_calls (snd res)" "i = uuidv4 e n"
    unfolding token_from_def by blast
  with assms(2) show "\<exists>n. uuid_calls s \<le> n \<and> n < uuid_calls (snd res) \<and> i = uuidv4 e n"
    by (intro exI [of _ n]) simp
qed

lemma token_from_fresh:
  assumes "uuid_calls s1 = Suc (uuid_calls s)"
    and "\<And>resp i. x = Inr resp \<Longrightarrow> created_id resp = Some i \<Longrightarrow> i = uuidv4 e (uuid_calls s)"
  shows "token_from e s (x, s1)"
  unfolding token_from_def
proof (intro conjI allI impI)
  from assms(1) show "uuid_calls s \<le> uuid_calls (snd (x, s1))"
    by simp
  fix resp i
  assume "fst (x, s1) = Inr resp" "created_id resp = Some i"
  with assms(2) have "i = uuidv4 e (uuid_calls s)"
    by simp
  with assms(1)
  show "\<exists>n. uuid_calls s \<le> n \<and> n < uuid_calls (snd (x, s1)) \<and> i = uuidv4 e n"
    by (intro exI [of _ "uuid_calls s"]) simp
qed

lemma token_from_none:
  assumes "uuid_calls s \<le> uuid_calls s1"
    and "\<And>resp. x = Inr resp \<Longrightarrow> created_id resp = None"
  shows "token_from e s (x, s1)"
  using assms unfolding token_from_def by auto

lemma post_projects_token: "token_from e s (post_projects e ttl descr files s)"
proof (cases "files = []")
  case True
  then show ?thesis
    by (auto simp: post_projects_def intro!: token_from_none)
next
  case False
  let ?p = "\<lparr>pid = uuidv4 e (uuid_calls s), title = ttl, description = descr,
             imageUrls = map (\<lambda>f. image_url e (filename f)) files\<rparr>"
  let ?s1 = "s\<lparr>projects := projects s @ [?p], uuid_calls := Suc (uuid_calls s)\<rparr>"
  show ?thesis
  proof (cases "saveProjects e ?s1")
    case (Inl x)
    with False show ?thesis
      by (auto simp: post_projects_def Let_def intro!: token_from_fresh)
  next
    case (Inr s2)
    with False saveProjects_uuid [OF Inr] show ?thesis
      by (auto simp: post_projects_def Let_def intro!: token_from_fresh)
  qed
qed

lemma put_projects_token: "token_from e s (put_projects e i ttl descr files s)"
proof -
  obtain x s1 where r: "put_projects e i ttl descr files s = (x, s1)"
    by (cases "put_projects e i ttl descr files s")
  then have "uuid_calls s1 = uuid_calls s"
    by (auto simp: put_projects_def Let_def dest: saveProjects_uuid
        split: option.splits prod.splits sum.splits if_splits)
  moreover from r have "created_id resp = None" if "x = Inr resp" for resp
    using that
    by (auto simp: put_projects_def Let_def split: option.splits prod.splits sum.splits if_splits)
  ultimately show ?thesis
    using r by (auto intro!: token_from_none)
qed

lemma delete_projects_token: "token_from e s (delete_projects e i s)"
proof -
  obtain x s1 where r: "delete_projects e i s = (x, s1)"
    by (cases "delete_projects e i s")
  then have "uuid_calls s1 = uuid_calls s"
    by (auto simp: delete_projects_def Let_def dest: saveProjects_uuid
        split: option.splits prod.splits sum.splits)
  moreover from r have "created_id resp = None" if "x = Inr resp" for resp
    using that
    by (auto simp: delete_projects_def Let_def split: option.splits prod.splits sum.splits)
  ultimately show ?thesis
    using r by (auto intro!: token_from_none)
qed

lemma post_carousel_images_token: "token_from e s (post_carousel_images e f0 s)"
proof (cases f0)
  case None
  then show ?thesis
    by (auto simp: post_carousel_images_def intro!: token_from_none)
next
  case (Some f)
  let ?c = "\<lparr>c_id = uuidv4 e (uuid_calls s), url = image_url e (filename f)\<rparr>"
  let ?s1 = "s\<lparr>carouselImages := carouselImages s @ [?c], uuid_calls := Suc (uuid_calls s)\<rparr>"
  show ?thesis
  proof (cases "saveCarouselImages e ?s1")
    case (Inl x)
    with Some show ?thesis
      by (auto simp: post_carousel_images_def Let_def intro!: token_from_fresh)
  next
    case (Inr s2)
    with Some saveCarouselImages_uuid [OF Inr] show ?thesis
      by (auto simp: post_carousel_images_def Let_def intro!: token_from_fresh)
  qed
qed

lemma delete_carousel_images_token: "token_from e s (delete_carousel_images e i s)"
proof -
  obtain x s1 where r: "delete_carousel_images e i s = (x, s1)"
    by (cases "delete_carousel_images e i s")
  then have "uuid_calls s1 = uuid_calls s"
    by (auto simp: delete_carousel_images_def Let_def dest: saveCarouselImages_uuid
        split: option.splits prod.splits sum.splits if_splits)
  moreover from r have "created_id resp = None" if "x = Inr resp" for resp
    using that
    by (auto simp: delete_carousel_images_def Let_def
        split: option.splits prod.splits sum.splits if_splits)
  ultimately show ?thesis
    using r by (auto intro!: token_from_none)
qed

lemma post_videos_token: "token_from e s (post_videos e u ttl s)"
proof (cases "\<not> truthy u \<or> \<not> truthy ttl \<or> \<not> url_parses e (the u)")
  case True
  then show ?thesis
    by (auto simp: post_videos_def intro!: token_from_none)
next
  case False
  let ?v = "\<lparr>v_id = uuidv4 e (uuid_calls s), v_url = the u, v_title = the ttl\<rparr>"
  let ?s1 = "s\<lparr>videos := videos s @ [?v], uuid_calls := Suc (uuid_calls s)\<rparr>"
  show ?thesis
  proof (cases "saveVideos e ?s1")
    case (Inl x)
    with False show ?thesis
      by (auto simp: post_videos_def Let_def intro!: token_from_fresh)
  next
    case (Inr s2)
    with False saveVideos_uuid [OF Inr] show ?thesis
      by (auto simp: post_videos_def Let_def intro!: token_from_fresh)
  qed
qed

lemma delete_videos_token: "token_from e s (delete_videos e i s)"
proof -
  obtain x s1 where r: "delete_videos e i s = (x, s1)"
    by (cases "delete_videos e i s")
  then have "uuid_calls s1 = uuid_calls s"
    by (auto simp: delete_videos_def Let_def dest: saveVideos_uuid
        split: option.splits sum.splits)
  moreover from r have "created_id resp = None" if "x = Inr resp" for resp
    using that
    by (auto simp: delete_videos_def Let_def split: option.splits sum.splits)
  ultimately show ?thesis
    using r by (auto intro!: token_from_none)
qed

lemma multer_array_uuid:
  assumes "multer_array e n ups s = (x, s1)"
  shows "uuid_calls s \<le> uuid_calls s1"
proof (cases "n < length ups")
  case True
  with assms show ?thesis
    by (auto simp: multer_array_def)
next
  case False
  obtain fs s0 where ds: "disk_storage e ups s = (fs, s0)"
    by (cases "disk_storage e ups s")
  with False assms have "s1 = s0"
    by (simp add: multer_array_def)
  with disk_storage_fields [OF ds] show ?thesis
    by simp
qed

lemma route_token: "token_from e s (route e r s)"
proof (cases r)
  case (POST_projects ttl descr ups)
  obtain x s0 where m: "multer_array e 5 ups s = (x, s0)"
    by (cases "multer_array e 5 ups s")
  show ?thesis
  proof (cases x)
    case (Inl ex)
    with m POST_projects multer_array_uuid [OF m] show ?thesis
      by (simp add: token_from_def)
  next
    case (Inr fs)
    with m POST_projects token_from_later [OF post_projects_token multer_array_uuid [OF m]]
    show ?thesis by simp
  qed
next
  case (PUT_projects i ttl descr ups)
  obtain x s0 where m: "multer_array e 5 ups s = (x, s0)"
    by (cases "multer_array e 5 ups s")
  show ?thesis
  proof (cases x)
    case (Inl ex)
    with m PUT_projects multer_array_uuid [OF m] show ?thesis
      by (simp add: token_from_def)
  next
    case (Inr fs)
    with m PUT_projects token_from_later [OF put_projects_token multer_array_uuid [OF m]]
    show ?thesis by simp
  qed
next
  case (POST_carousel_images ups)
  obtain x s0 where m: "multer_array e 1 ups s = (x, s0)"
    by (cases "multer_array e 1 ups s")
  show ?thesis
  proof (cases x)
    case (Inl ex)
    with m POST_carousel_images multer_array_uuid [OF m] show ?thesis
      by (simp add: token_from_def)
  next
    case (Inr fs)
    with m POST_carousel_images
      token_from_later [OF post_carousel_images_token multer_array_uuid [OF m]]
    show ?thesis by simp
  qed
qed (simp_all add: delete_projects_token delete_carousel_images_token post_videos_token
    delete_videos_token, simp_all add: token_from_def get_projects_def
    get_carousel_images_def get_videos_def)

lemma created_id_error_handler: "created_id (error_handler x) = None"
  by (cases x) simp_all

lemma handle_token:
  "uuid_calls s \<le> uuid_calls (snd (handle e r s)) \<and>
   (\<forall>i. created_id (fst (handle e r s)) = Some i \<longrightarrow>
      (\<exists>n. uuid_calls s \<le> n \<and> n < uuid_calls (snd (handle e r s)) \<and> i = uuidv4 e n))"
  using route_token [of e s r]
  by (cases "route e r s"; cases "fst (route e r s)")
    (auto simp: token_from_def handle_def created_id_error_handler)

lemma created_ids_Nil: "created_ids e [] s = []"
  by (simp add: created_ids_def map_filter_simps)

lemma created_ids_Cons:
  "created_ids e (r # rs) s =
     (case created_id (fst (handle e r s)) of None \<Rightarrow> [] | Some i \<Rightarrow> [i])
     @ created_ids e rs (snd (handle e r s))"
  by (simp add: created_ids_def map_filter_simps Let_def split: prod.splits option.splits)

lemma created_ids_tokens:
  "i \<in> set (created_ids e rs s) \<Longrightarrow> \<exists>n. uuid_calls s \<le> n \<and> i = uuidv4 e n"
proof (induction rs arbitrary: s)
  case Nil
  then show ?case by (simp add: created_ids_Nil)
next
  case (Cons r rs)
  from handle_token [of s e r] have le: "uuid_calls s \<le> uuid_calls (snd (handle e r s))"
    by simp
  from Cons.prems consider
    (head) "created_id (fst (handle e r s)) = Some i"
    | (tail) "i \<in> set (created_ids e rs (snd (handle e r s)))"
    by (auto simp: created_ids_Cons split: option.splits)
  then show ?case
  proof cases
    case head
    with handle_token [of s e r] show ?thesis by blast
  next
    case tail
    from Cons.IH [OF tail] obtain n where "uuid_calls (snd (handle e r s)) \<le> n" "i = uuidv4 e n"
      by blast
    with le show ?thesis
      by (intro exI [of _ n]) simp
  qed
qed

lemma created_ids_distinct: "inj (uuidv4 e) \<Longrightarrow> distinct (created_ids e rs s)"
proof (induction rs arbitrary: s)
  case Nil
  then show ?case by (simp add: created_ids_Nil)
next
  case (Cons r rs)
  let ?s1 = "snd (handle e r s)"
  from Cons have rest: "distinct (created_ids e rs ?s1)"
    by simp
  show ?case
  proof (cases "created_id (fst (handle e r s))")
    case None
    with rest show ?thesis by (simp add: created_ids_Cons)
  next
    case (Some i)
    with handle_token [of s e r] obtain n where n: "n < uuid_calls ?s1" "i = uuidv4 e n"
      by blast
    have "i \<notin> set (created_ids e rs ?s1)"
    proof
      assume "i \<in> set (created_ids e rs ?s1)"
      from created_ids_tokens [OF this] obtain m where "uuid_calls ?s1 \<le> m" "i = uuidv4 e m"
        by blast
      with n Cons.prems show False
        by (auto dest: injD)
    qed
    with rest Some show ?thesis by (simp add: created_ids_Cons)
  qed
qed

lemma put_keeps_ids:
  "map pid (projects (snd (handle e (PUT_projects i ttl descr ups) s))) = map pid (projects s)"
proof (rule nth_equalityI)
  show len: "length (map pid (projects (snd (handle e (PUT_projects i ttl descr ups) s)))) =
      length (map pid (projects s))"
    using route_put_cases [of ups e i ttl descr s]
    by (auto simp: snd_handle put_projects_length)
  fix j
  assume "j < length (map pid (projects (snd (handle e (PUT_projects i ttl descr ups) s))))"
  with len have j: "j < length (projects s)"
    by simp
  with route_put_cases [of ups e i ttl descr s]
  have "pid (projects (snd (handle e (PUT_projects i ttl descr ups) s)) ! j) = pid (projects s ! j)"
    by (auto simp: snd_handle put_projects_frame(1))
  with j len show "map pid (projects (snd (handle e (PUT_projects i ttl descr ups) s))) ! j =
      map pid (projects s) ! j"
    by simp
qed

text \<open>
  C9. Over any sequence of requests from any state, the identifiers of the records
  created, those deleted since included and whatever the collection, are pairwise
  distinct, given that \<^verbatim>\<open>uuidv4\<close> never returns the same token twice: every Create
  takes its identifier from a call of its own. An Update leaves the identifier of every
  project as it is.
\<close>

theorem identifiers_unique:
  "(inj (uuidv4 e) \<longrightarrow> distinct (created_ids e rs s))
   \<and> map pid (projects (snd (handle e (PUT_projects i ttl descr ups) s))) = map pid (projects s)"
  using created_ids_distinct [of e rs s] put_keeps_ids [of e i ttl descr ups s]
  by blast

theorem identifiers_unique_witness:
  "distinct (created_ids env0
      [POST_videos (Some ''https://example.org/w'') (Some ''Tour''), DELETE_videos ''uuid-'',
       POST_videos (Some ''https://example.org/w'') (Some ''Tour'')] state0)
   \<and> created_ids env0
      [POST_videos (Some ''https://example.org/w'') (Some ''Tour''), DELETE_videos ''uuid-'',
       POST_videos (Some ''https://example.org/w'') (Some ''Tour'')] state0 = [''uuid-'', ''uuid-i'']
   \<and> videos (snd (run env0
      [POST_videos (Some ''https://example.org/w'') (Some ''Tour''), DELETE_videos ''uuid-'',
       POST_videos (Some ''https://example.org/w'') (Some ''Tour'')] state0)) =
      [\<lparr>v_id = ''uuid-i'', v_url = ''https://example.org/w'', v_title = ''Tour''\<rparr>]
   \<and> map pid (projects (snd (handle env0 (PUT_projects ''p1'' (Some ''Pier'') None []) state1))) =
      map pid (projects state1)"
proof -
  let ?rs = "[POST_videos (Some ''https://example.org/w'') (Some ''Tour''), DELETE_videos ''uuid-'',
       POST_videos (Some ''https://example.org/w'') (Some ''Tour'')]"
  have i: "inj (uuidv4 env0)"
    by (simp add: env0_def inj_def)
  have ids: "created_ids env0 ?rs state0 = [''uuid-'', ''uuid-i'']"
    by (simp add: created_ids_def map_filter_simps example_defs path_defs fs_defs handler_defs
        Let_def)
  have vs: "videos (snd (run env0 ?rs state0)) =
      [\<lparr>v_id = ''uuid-i'', v_url = ''https://example.org/w'', v_title = ''Tour''\<rparr>]"
    by (simp add: example_defs path_defs fs_defs handler_defs Let_def)
  from identifiers_unique [of env0 ?rs state0 "''p1''" "Some ''Pier''" None "[]"] i
    identifiers_unique [of env0 ?rs state1 "''p1''" "Some ''Pier''" None "[]"] ids vs
  show ?thesis by blast
qed

section \<open>Image references and files\<close>

lemma replace_first_prefix: "pat \<noteq> [] \<Longrightarrow> replace_first pat rep (pat @ rest) = rep @ rest"
  by (cases pat) simp_all

lemma localPath_image_url: "localPath e (image_url e n) = path_join (uploadDir e) n"
proof -
  have "image_url e n = base_url e @ (''uploads/'' @ n)"
    by (simp add: image_url_def base_url_def)
  moreover have "base_url e \<noteq> []"
    by (simp add: base_url_def)
  ultimately have "replace_first (base_url e) [] (image_url e n) = ''uploads/'' @ n"
    by (simp add: replace_first_prefix)
  then show ?thesis
    by (simp add: localPath_def path_join_def uploadDir_def)
qed

lemma in_upload_dir_upload: "in_upload_dir e (path_join (uploadDir e) n)"
  by (simp add: in_upload_dir_def path_join_def)

lemma db_not_in_upload_dir:
  "\<not> in_upload_dir e (projectsDbPath e)"
  "\<not> in_upload_dir e (carouselDbPath e)"
  "\<not> in_upload_dir e (videosDbPath e)"
  by (simp_all add: in_upload_dir_def path_defs)

lemma path_join_inj: "path_join a n = path_join a m \<longleftrightarrow> n = m"
  by (simp add: path_join_def)

lemma files_consistent_same:
  assumes "files_consistent e s" and "image_refs s1 = image_refs s"
    and "\<And>p. in_upload_dir e p \<Longrightarrow> contents (disk s1) p = contents (disk s) p"
  shows "files_consistent e s1"
  using assms by (auto simp: files_consistent_def existsSync_def)

text \<open>
  One step of the invariant: the references \<open>old\<close> are taken out and their files
  deleted, the references \<open>new\<close> are put in and their files, which did not exist, are
  there.
\<close>

lemma files_consistent_step:
  assumes inv: "files_consistent e s"
    and before: "image_refs s = A @ old @ B"
    and after: "image_refs s1 = A @ new @ B"
    and dist: "distinct (map (localPath e) new)"
    and new: "\<And>u. u \<in> set new \<Longrightarrow>
        in_upload_dir e (localPath e u) \<and> \<not> existsSync (disk s) (localPath e u)"
    and files: "\<And>p. in_upload_dir e p \<Longrightarrow>
        existsSync (disk s1) p \<longleftrightarrow>
          (existsSync (disk s) p \<or> p \<in> localPath e ` set new) \<and> p \<notin> localPath e ` set old"
  shows "files_consistent e s1"
proof -
  let ?g = "localPath e"
  from inv before have d: "distinct (map ?g (A @ old @ B))"
    and u: "?g ` set (A @ old @ B) = {p. in_upload_dir e p \<and> existsSync (disk s) p}"
    by (simp_all add: files_consistent_def)
  from u have ex: "existsSync (disk s) (?g x) \<and> in_upload_dir e (?g x)"
    if "x \<in> set A \<union> set old \<union> set B" for x
    using that by auto
  have fresh: "?g x \<noteq> ?g y" if "x \<in> set new" "y \<in> set A \<union> set old \<union> set B" for x y
    using new [OF that(1)] ex [OF that(2)] by auto
  have disj: "?g ` set new \<inter> ?g ` (set A \<union> set old \<union> set B) = {}"
    using fresh by blast
  have d1: "distinct (map ?g (A @ new @ B))"
    using d dist disj by auto
  have keep: "?g x \<notin> ?g ` set old" if "x \<in> set A \<union> set B" for x
    using d that by auto
  have "?g ` set (A @ new @ B) = {p. in_upload_dir e p \<and> existsSync (disk s1) p}"
  proof (intro equalityI subsetI)
    fix p
    assume "p \<in> ?g ` set (A @ new @ B)"
    then obtain x where x: "p = ?g x" "x \<in> set A \<union> set B \<or> x \<in> set new"
      by auto
    from x(2) show "p \<in> {p. in_upload_dir e p \<and> existsSync (disk s1) p}"
    proof
      assume ab: "x \<in> set A \<union> set B"
      then have "x \<in> set A \<union> set old \<union> set B" by auto
      from ex [OF this] keep [OF ab] x(1) files [of p] show ?thesis
        by simp
    next
      assume n: "x \<in> set new"
      have "p \<notin> ?g ` set old"
      proof
        assume "p \<in> ?g ` set old"
        then obtain y where "y \<in> set old" "p = ?g y" by auto
        with fresh [OF n, of y] x(1) show False by simp
      qed
      with new [OF n] n x(1) files [of p] show ?thesis
        by auto
    qed
  next
    fix p
    assume "p \<in> {p. in_upload_dir e p \<and> existsSync (disk s1) p}"
    then have p: "in_upload_dir e p" "existsSync (disk s1) p" by auto
    with files [of p] have c: "existsSync (disk s) p \<or> p \<in> ?g ` set new" and o: "p \<notin> ?g ` set old"
      by auto
    from c show "p \<in> ?g ` set (A @ new @ B)"
    proof
      assume "existsSync (disk s) p"
      with p(1) u have "p \<in> ?g ` set (A @ old @ B)" by auto
      with o show ?thesis by auto
    next
      assume "p \<in> ?g ` set new"
      then show ?thesis by auto
    qed
  qed
  with d1 after show ?thesis
    by (simp add: files_consistent_def)
qed

lemma unlink_images_done:
  "unlink_images e us fs = (None, fs1) \<Longrightarrow>
     fs1 = fs\<lparr>contents := contents fs |` (- localPath e ` set us)\<rparr>"
proof (induction us arbitrary: fs)
  case Nil
  then show ?case by simp
next
  case (Cons u us)
  show ?case
  proof (cases "existsSync fs (localPath e u)")
    case True
    show ?thesis
    proof (cases "unlinkSync fs (localPath e u)")
      case (Inl x)
      with True Cons.prems show ?thesis by simp
    next
      case (Inr fs0)
      then have fs0: "fs0 = fs\<lparr>contents := (contents fs)(localPath e u := None)\<rparr>"
        by (auto simp: unlinkSync_def split: if_splits)
      from True Inr Cons.prems have "unlink_images e us fs0 = (None, fs1)"
        by simp
      from Cons.IH [OF this] fs0 show ?thesis
        by (auto simp: restrict_map_def fun_eq_iff)
    qed
  next
    case False
    with Cons.prems have "unlink_images e us fs = (None, fs1)"
      by simp
    from Cons.IH [OF this] False show ?thesis
      by (auto simp: restrict_map_def fun_eq_iff existsSync_def)
  qed
qed

lemma concat_nth_split:
  "k < length xs \<Longrightarrow>
   concat (map f xs) = concat (map f (take k xs)) @ f (xs ! k) @ concat (map f (drop (Suc k) xs))"
  by (subst id_take_nth_drop [of k xs]) simp_all

lemma concat_update_split:
  "k < length xs \<Longrightarrow>
   concat (map f (xs[k := y])) =
     concat (map f (take k xs)) @ f y @ concat (map f (drop (Suc k) xs))"
  by (simp add: upd_conv_take_nth_drop)

lemma concat_splice1_split:
  "concat (map f (splice1 k xs)) = concat (map f (take k xs)) @ concat (map f (drop (Suc k) xs))"
  by (simp add: splice1_def)

lemma map_nth_split:
  "k < length xs \<Longrightarrow> map f xs = map f (take k xs) @ [f (xs ! k)] @ map f (drop (Suc k) xs)"
  by (subst id_take_nth_drop [of k xs]) simp_all

lemma saveProjects_files:
  "saveProjects e s0 = Inr s1 \<Longrightarrow>
     image_refs s1 = image_refs s0
     \<and> (\<forall>p. in_upload_dir e p \<longrightarrow> contents (disk s1) p = contents (disk s0) p)"
  using db_not_in_upload_dir(1) [of e]
  by (auto simp: saveProjects_def writeFileSync_def image_refs_def split: sum.splits if_splits)

lemma saveCarouselImages_files:
  "saveCarouselImages e s0 = Inr s1 \<Longrightarrow>
     image_refs s1 = image_refs s0
     \<and> (\<forall>p. in_upload_dir e p \<longrightarrow> contents (disk s1) p = contents (disk s0) p)"
  using db_not_in_upload_dir(2) [of e]
  by (auto simp: saveCarouselImages_def writeFileSync_def image_refs_def
      split: sum.splits if_splits)

lemma saveVideos_files:
  "saveVideos e s0 = Inr s1 \<Longrightarrow>
     image_refs s1 = image_refs s0
     \<and> (\<forall>p. in_upload_dir e p \<longrightarrow> contents (disk s1) p = contents (disk s0) p)"
  using db_not_in_upload_dir(3) [of e]
  by (auto simp: saveVideos_def writeFileSync_def image_refs_def split: sum.splits if_splits)

lemma delete_projects_consistent:
  assumes inv: "files_consistent e s"
    and res: "delete_projects e i s = (x, s1)"
    and ok: "\<And>y. x \<noteq> Inl (FsError y)"
  shows "files_consistent e s1"
proof (cases "findIndex (\<lambda>p. pid p = i) (projects s)")
  case None
  with res inv show ?thesis
    by (simp add: delete_projects_def)
next
  case (Some k)
  then have k: "k < length (projects s)"
    by (rule findIndex_Some_lt)
  let ?old = "imageUrls (projects s ! k)"
  obtain r fs1 where un: "unlink_images e ?old (disk s) = (r, fs1)"
    by (cases "unlink_images e ?old (disk s)")
  show ?thesis
  proof (cases r)
    case (Some y)
    with un res \<open>findIndex (\<lambda>p. pid p = i) (projects s) = Some k\<close> ok show ?thesis
      by (auto simp: delete_projects_def)
  next
    case None
    let ?s0 = "s\<lparr>projects := splice1 k (projects s), disk := fs1\<rparr>"
    have fs1: "fs1 = (disk s)\<lparr>contents := contents (disk s) |` (- localPath e ` set ?old)\<rparr>"
      using unlink_images_done [of e ?old "disk s" fs1] un None
      by (simp del: unlink_images.simps)
    show ?thesis
    proof (cases "saveProjects e ?s0")
      case (Inl y)
      with un None res \<open>findIndex (\<lambda>p. pid p = i) (projects s) = Some k\<close> ok show ?thesis
        by (auto simp: delete_projects_def)
    next
      case (Inr s2)
      with un None res \<open>findIndex (\<lambda>p. pid p = i) (projects s) = Some k\<close> have s1: "s1 = s2"
        by (simp add: delete_projects_def)
      let ?A = "concat (map imageUrls (take k (projects s)))"
      let ?B = "concat (map imageUrls (drop (Suc k) (projects s))) @ map url (carouselImages s)"
      have before: "image_refs s = ?A @ ?old @ ?B"
        using k by (simp add: image_refs_def concat_nth_split [of k "projects s" imageUrls])
      from saveProjects_files [OF Inr] s1 have after: "image_refs s1 = ?A @ [] @ ?B"
        and same: "\<And>p. in_upload_dir e p \<Longrightarrow> contents (disk s1) p = contents fs1 p"
        by (simp_all add: image_refs_def concat_splice1_split)
      show ?thesis
      proof (rule files_consistent_step [OF inv before after])
        fix p
        assume "in_upload_dir e p"
        from same [OF this] fs1
        show "existsSync (disk s1) p \<longleftrightarrow>
          (existsSync (disk s) p \<or> p \<in> localPath e ` set []) \<and> p \<notin> localPath e ` set ?old"
          by (auto simp: existsSync_def restrict_map_def)
      qed simp_all
    qed
  qed
qed

lemma delete_carousel_images_consistent:
  assumes inv: "files_consistent e s"
    and res: "delete_carousel_images e i s = (x, s1)"
    and ok: "\<And>y. x \<noteq> Inl (FsError y)"
  shows "files_consistent e s1"
proof (cases "findIndex (\<lambda>c. c_id c = i) (carouselImages s)")
  case None
  with res inv show ?thesis
    by (simp add: delete_carousel_images_def)
next
  case (Some k)
  then have k: "k < length (carouselImages s)"
    by (rule findIndex_Some_lt)
  let ?old = "[url (carouselImages s ! k)]"
  obtain r fs1 where un: "unlink_images e ?old (disk s) = (r, fs1)"
    by (cases "unlink_images e ?old (disk s)")
  show ?thesis
  proof (cases r)
    case (Some y)
    with un res \<open>findIndex (\<lambda>c. c_id c = i) (carouselImages s) = Some k\<close> ok show ?thesis
      by (auto simp del: unlink_images.simps simp: delete_carousel_images_def)
  next
    case None
    let ?s0 = "s\<lparr>carouselImages := splice1 k (carouselImages s), disk := fs1\<rparr>"
    have fs1: "fs1 = (disk s)\<lparr>contents := contents (disk s) |` (- localPath e ` set ?old)\<rparr>"
      using unlink_images_done [of e ?old "disk s" fs1] un None
      by (simp del: unlink_images.simps)
    show ?thesis
    proof (cases "saveCarouselImages e ?s0")
      case (Inl y)
      with un None res \<open>findIndex (\<lambda>c. c_id c = i) (carouselImages s) = Some k\<close> ok
      show ?thesis
        by (auto simp del: unlink_images.simps simp: delete_carousel_images_def)
    next
      case (Inr s2)
      with un None res \<open>findIndex (\<lambda>c. c_id c = i) (carouselImages s) = Some k\<close>
      have s1: "s1 = s2"
        by (simp del: unlink_images.simps add: delete_carousel_images_def)
      let ?A = "concat (map imageUrls (projects s)) @ map url (take k (carouselImages s))"
      let ?B = "map url (drop (Suc k) (carouselImages s))"
      have before: "image_refs s = ?A @ ?old @ ?B"
        using k by (simp add: image_refs_def map_nth_split [of k "carouselImages s" url])
      from saveCarouselImages_files [OF Inr] s1 have after: "image_refs s1 = ?A @ [] @ ?B"
        and same: "\<And>p. in_upload_dir e p \<Longrightarrow> contents (disk s1) p = contents fs1 p"
        by (simp_all add: image_refs_def splice1_def)
      show ?thesis
      proof (rule files_consistent_step [OF inv before after])
        fix p
        assume "in_upload_dir e p"
        from same [OF this] fs1
        show "existsSync (disk s1) p \<longleftrightarrow>
          (existsSync (disk s) p \<or> p \<in> localPath e ` set []) \<and> p \<notin> localPath e ` set ?old"
          by (auto simp: existsSync_def restrict_map_def)
      qed simp_all
    qed
  qed
qed

lemma post_videos_consistent:
  assumes inv: "files_consistent e s" and res: "post_videos e u ttl s = (x, s1)"
  shows "files_consistent e s1"
proof -
  have "image_refs s1 = image_refs s
      \<and> (\<forall>p. in_upload_dir e p \<longrightarrow> contents (disk s1) p = contents (disk s) p)"
    using res
    by (auto simp: post_videos_def Let_def image_refs_def dest!: saveVideos_files
        split: if_splits sum.splits)
  with inv show ?thesis
    by (intro files_consistent_same [of e s s1]) simp_all
qed

lemma delete_videos_consistent:
  assumes inv: "files_consistent e s" and res: "delete_videos e i s = (x, s1)"
  shows "files_consistent e s1"
proof -
  have "image_refs s1 = image_refs s
      \<and> (\<forall>p. in_upload_dir e p \<longrightarrow> contents (disk s1) p = contents (disk s) p)"
    using res
    by (auto simp: delete_videos_def Let_def image_refs_def dest!: saveVideos_files
        split: option.splits sum.splits)
  with inv show ?thesis
    by (intro files_consistent_same [of e s s1]) simp_all
qed

lemma disk_storage_exists:
  assumes "disk_storage e ups s = (fs, s0)"
  shows "existsSync (disk s0) p \<longleftrightarrow>
     existsSync (disk s) p \<or> p \<in> (\<lambda>f. path_join (uploadDir e) (filename f)) ` set fs"
proof (cases "p \<in> (\<lambda>f. path_join (uploadDir e) (filename f)) ` set fs")
  case True
  with disk_storage_stored [OF assms] show ?thesis
    by (auto simp: existsSync_def)
next
  case False
  with disk_storage_elsewhere [OF assms False] show ?thesis
    by (simp add: existsSync_def)
qed

lemma disk_storage_refs: "disk_storage e ups s = (fs, s0) \<Longrightarrow> image_refs s0 = image_refs s"
  by (drule disk_storage_fields) (simp add: image_refs_def)

lemma new_urls_paths:
  "map (localPath e) (map (\<lambda>f. image_url e (filename f)) fs) =
     map (\<lambda>f. path_join (uploadDir e) (filename f)) fs"
  by (simp add: localPath_image_url)

lemma new_urls_distinct:
  assumes "distinct (map filename fs)"
  shows "distinct (map (localPath e) (map (\<lambda>f. image_url e (filename f)) fs))"
proof -
  have "inj_on (path_join (uploadDir e)) (set (map filename fs))"
    by (auto simp: inj_on_def path_join_inj)
  with assms have "distinct (map (path_join (uploadDir e)) (map filename fs))"
    by (simp only: distinct_map)
  then show ?thesis
    by (simp add: localPath_image_url comp_def)
qed

text \<open>
  The three handlers that run after the upload middleware: the invariant is assumed
  before the uploads were stored, and the stored files have new names.
\<close>

lemma stored_step:
  assumes inv: "files_consistent e s"
    and ds: "disk_storage e ups s = (fs, s0)"
    and names: "distinct (map filename fs)"
    and unused: "\<And>f. f \<in> set fs \<Longrightarrow> \<not> existsSync (disk s) (path_join (uploadDir e) (filename f))"
    and before: "image_refs s = A @ old @ B"
    and after: "image_refs s1 = A @ map (\<lambda>f. image_url e (filename f)) fs @ B"
    and files: "\<And>p. in_upload_dir e p \<Longrightarrow>
        contents (disk s1) p = (contents (disk s0) |` (- localPath e ` set old)) p"
  shows "files_consistent e s1"
proof (rule files_consistent_step [OF inv before after])
  show "distinct (map (localPath e) (map (\<lambda>f. image_url e (filename f)) fs))"
    using names by (rule new_urls_distinct)
next
  fix u
  assume "u \<in> set (map (\<lambda>f. image_url e (filename f)) fs)"
  then obtain f where "f \<in> set fs" "u = image_url e (filename f)"
    by auto
  with unused [of f]
  show "in_upload_dir e (localPath e u) \<and> \<not> existsSync (disk s) (localPath e u)"
    by (simp add: localPath_image_url in_upload_dir_upload)
next
  fix p
  assume "in_upload_dir e p"
  from files [OF this] disk_storage_exists [OF ds, of p]
  show "existsSync (disk s1) p \<longleftrightarrow>
      (existsSync (disk s) p \<or> p \<in> localPath e ` set (map (\<lambda>f. image_url e (filename f)) fs))
      \<and> p \<notin> localPath e ` set old"
    by (auto simp: existsSync_def restrict_map_def localPath_image_url image_iff)
qed

lemma post_projects_consistent:
  assumes inv: "files_consistent e s"
    and ds: "disk_storage e ups s = (fs, s0)"
    and names: "distinct (map filename fs)"
    and unused: "\<And>f. f \<in> set fs \<Longrightarrow> \<not> existsSync (disk s) (path_join (uploadDir e) (filename f))"
    and res: "post_projects e ttl descr fs s0 = (x, s1)"
    and ok: "\<And>y. x \<noteq> Inl (FsError y)"
  shows "files_consistent e s1"
proof (cases "fs = []")
  case True
  with disk_storage_fields [OF ds] have "ups = []"
    by simp
  with ds have "s0 = s" by simp
  with True res inv show ?thesis
    by (simp add: post_projects_def)
next
  case False
  let ?p = "\<lparr>pid = uuidv4 e (uuid_calls s0), title = ttl, description = descr,
             imageUrls = map (\<lambda>f. image_url e (filename f)) fs\<rparr>"
  let ?s = "s0\<lparr>projects := projects s0 @ [?p], uuid_calls := Suc (uuid_calls s0)\<rparr>"
  show ?thesis
  proof (cases "saveProjects e ?s")
    case (Inl y)
    with False res ok show ?thesis
      by (auto simp: post_projects_def Let_def)
  next
    case (Inr s2)
    with False res have s1: "s1 = s2"
      by (simp add: post_projects_def Let_def)
    let ?A = "concat (map imageUrls (projects s))"
    let ?B = "map url (carouselImages s)"
    have before: "image_refs s = ?A @ [] @ ?B"
      by (simp add: image_refs_def)
    from saveProjects_files [OF Inr] s1 disk_storage_fields [OF ds]
    have after: "image_refs s1 = ?A @ map (\<lambda>f. image_url e (filename f)) fs @ ?B"
      and same: "\<And>p. in_upload_dir e p \<Longrightarrow> contents (disk s1) p = contents (disk s0) p"
      by (simp_all add: image_refs_def)
    show ?thesis
      by (rule stored_step [OF inv ds names unused before after]) (simp_all add: same)
  qed
qed

lemma post_carousel_images_consistent:
  assumes inv: "files_consistent e s"
    and ds: "disk_storage e ups s = (fs, s0)"
    and one: "length ups \<le> 1"
    and names: "distinct (map filename fs)"
    and unused: "\<And>f. f \<in> set fs \<Longrightarrow> \<not> existsSync (disk s) (path_join (uploadDir e) (filename f))"
    and res: "post_carousel_images e (case fs of [] \<Rightarrow> None | f # x \<Rightarrow> Some f) s0 = (x, s1)"
    and ok: "\<And>y. x \<noteq> Inl (FsError y)"
  shows "files_consistent e s1"
proof (cases fs)
  case Nil
  with disk_storage_fields [OF ds] have "ups = []"
    by simp
  with ds have "s0 = s" by simp
  with Nil res inv show ?thesis
    by (simp add: post_carousel_images_def)
next
  case (Cons f rest)
  with disk_storage_fields [OF ds] one have fs: "fs = [f]"
    by (cases rest) auto
  let ?c = "\<lparr>c_id = uuidv4 e (uuid_calls s0), url = image_url e (filename f)\<rparr>"
  let ?s = "s0\<lparr>carouselImages := carouselImages s0 @ [?c], uuid_calls := Suc (uuid_calls s0)\<rparr>"
  show ?thesis
  proof (cases "saveCarouselImages e ?s")
    case (Inl y)
    with fs res ok show ?thesis
      by (auto simp: post_carousel_images_def Let_def)
  next
    case (Inr s2)
    with fs res have s1: "s1 = s2"
      by (simp add: post_carousel_images_def Let_def)
    have before: "image_refs s = image_refs s @ [] @ []"
      by simp
    from saveCarouselImages_files [OF Inr] s1 disk_storage_fields [OF ds] fs
    have after: "image_refs s1 = image_refs s @ map (\<lambda>f. image_url e (filename f)) fs @ []"
      and same: "\<And>p. in_upload_dir e p \<Longrightarrow> contents (disk s1) p = contents (disk s0) p"
      by (simp_all add: image_refs_def)
    show ?thesis
      by (rule stored_step [OF inv ds names unused before after]) (simp_all add: same)
  qed
qed

lemma put_projects_consistent:
  assumes inv: "files_consistent e s"
    and ds: "disk_storage e ups s = (fs, s0)"
    and names: "distinct (map filename fs)"
    and unused: "\<And>f. f \<in> set fs \<Longrightarrow> \<not> existsSync (disk s) (path_join (uploadDir e) (filename f))"
    and res: "put_projects e i ttl descr fs s0 = (x, s1)"
    and ok: "\<And>y. x \<noteq> Inl (FsError y)"
    and found: "\<And>resp. x = Inr resp \<Longrightarrow> status resp = 404 \<Longrightarrow> ups = []"
  shows "files_consistent e s1"
proof (cases "findIndex (\<lambda>p. pid p = i) (projects s0)")
  case None
  with res have x: "x = Inr (Response 404 (Error_body ''Project not found''))" and s1: "s1 = s0"
    by (simp_all add: put_projects_def)
  from found [OF x] have "ups = []" by simp
  with ds s1 inv show ?thesis by simp
next
  case (Some k)
  from disk_storage_fields [OF ds] have ps: "projects s0 = projects s"
    and cs: "carouselImages s0 = carouselImages s"
    by simp_all
  from Some have k: "k < length (projects s)"
    unfolding ps by (rule findIndex_Some_lt)
  let ?p2 = "update_fields ttl descr (projects s ! k)"
  let ?old = "imageUrls (projects s ! k)"
  let ?A = "concat (map imageUrls (take k (projects s)))"
  let ?B = "concat (map imageUrls (drop (Suc k) (projects s))) @ map url (carouselImages s)"
  have before: "image_refs s = ?A @ ?old @ ?B"
    using k by (simp add: image_refs_def concat_nth_split [of k "projects s" imageUrls])
  show ?thesis
  proof (cases "fs = []")
    case True
    with disk_storage_fields [OF ds] have "ups = []"
      by simp
    with ds have s0: "s0 = s" by simp
    let ?s = "s\<lparr>projects := (projects s)[k := ?p2]\<rparr>"
    show ?thesis
    proof (cases "saveProjects e ?s")
      case (Inl y)
      with True Some res ok s0 show ?thesis
        by (auto simp: put_projects_def Let_def)
    next
      case (Inr s2)
      with True Some res s0 have s1: "s1 = s2"
        by (simp add: put_projects_def Let_def)
      have "image_refs ?s = image_refs s"
        using k before by (simp add: image_refs_def concat_update_split)
      with saveProjects_files [OF Inr] s1 have "image_refs s1 = image_refs s"
        and "\<And>p. in_upload_dir e p \<Longrightarrow> contents (disk s1) p = contents (disk s) p"
        by simp_all
      with inv show ?thesis
        by (intro files_consistent_same [of e s s1]) simp_all
    qed
  next
    case False
    obtain r fs1 where un: "unlink_images e ?old (disk s0) = (r, fs1)"
      by (cases "unlink_images e ?old (disk s0)")
    show ?thesis
    proof (cases r)
      case (Some y)
      with un False res \<open>findIndex (\<lambda>p. pid p = i) (projects s0) = Some k\<close> ok ps show ?thesis
        by (auto simp: put_projects_def Let_def)
    next
      case None
      have fs1: "fs1 = (disk s0)\<lparr>contents := contents (disk s0) |` (- localPath e ` set ?old)\<rparr>"
        using unlink_images_done [of e ?old "disk s0" fs1] un None by simp
      let ?p3 = "?p2\<lparr>imageUrls := map (\<lambda>f. image_url e (filename f)) fs\<rparr>"
      let ?s = "s0\<lparr>projects := (projects s)[k := ?p3], disk := fs1\<rparr>"
      show ?thesis
      proof (cases "saveProjects e ?s")
        case (Inl y)
        with un None False res \<open>findIndex (\<lambda>p. pid p = i) (projects s0) = Some k\<close> ok ps
        show ?thesis
          by (auto simp: put_projects_def Let_def)
      next
        case (Inr s2)
        with un None False res \<open>findIndex (\<lambda>p. pid p = i) (projects s0) = Some k\<close> ps
        have s1: "s1 = s2"
          by (simp add: put_projects_def Let_def)
        from saveProjects_files [OF Inr] s1 cs k
        have after: "image_refs s1 = ?A @ map (\<lambda>f. image_url e (filename f)) fs @ ?B"
          and same: "\<And>p. in_upload_dir e p \<Longrightarrow> contents (disk s1) p = contents fs1 p"
          by (simp_all add: image_refs_def concat_update_split)
        show ?thesis
        proof (rule stored_step [OF inv ds names unused before after])
          fix p
          assume "in_upload_dir e p"
          from same [OF this] fs1
          show "contents (disk s1) p = (contents (disk s0) |` (- localPath e ` set ?old)) p"
            by simp
        qed
      qed
    qed
  qed
qed

lemma fresh_names_stored:
  assumes "fresh_names e r s" and "disk_storage e (uploads_of r) s = (fs, s0)"
  shows "distinct (map filename fs)"
    and "\<And>f. f \<in> set fs \<Longrightarrow> \<not> existsSync (disk s) (path_join (uploadDir e) (filename f))"
  using assms by (auto simp: fresh_names_def Let_def list_all_iff)

lemma counter_only:
  "files_consistent e s \<Longrightarrow> files_consistent e (s\<lparr>uuid_calls := n\<rparr>)"
  by (rule files_consistent_same [of e s]) (simp_all add: image_refs_def)

text \<open>
  C2 does not hold as stated. In the example state, where the invariant holds, the file
  b.png of project p1 cannot be deleted. The Delete of p1 removes a.png, fails on b.png
  and answers 500; the record stays in the array and now refers to the deleted a.png.
  It still does after the next request, a Create of a video that answers 201.
\<close>

theorem refused_unlink_counterexample:
  "files_consistent env0 (state1\<lparr>disk := disk1\<lparr>unlink_denied := {''/app/uploads/b.png''}\<rparr>\<rparr>)
   \<and> status (fst (handle env0 (DELETE_projects ''p1'')
        (state1\<lparr>disk := disk1\<lparr>unlink_denied := {''/app/uploads/b.png''}\<rparr>\<rparr>))) = 500
   \<and> \<not> files_consistent env0 (snd (handle env0 (DELETE_projects ''p1'')
        (state1\<lparr>disk := disk1\<lparr>unlink_denied := {''/app/uploads/b.png''}\<rparr>\<rparr>)))
   \<and> map status (fst (run env0
        [DELETE_projects ''p1'', POST_videos (Some ''https://example.org/w'') (Some ''Tour'')]
        (state1\<lparr>disk := disk1\<lparr>unlink_denied := {''/app/uploads/b.png''}\<rparr>\<rparr>))) = [500, 201]
   \<and> \<not> files_consistent env0 (snd (run env0
        [DELETE_projects ''p1'', POST_videos (Some ''https://example.org/w'') (Some ''Tour'')]
        (state1\<lparr>disk := disk1\<lparr>unlink_denied := {''/app/uploads/b.png''}\<rparr>\<rparr>)))"
proof -
  let ?s = "state1\<lparr>disk := disk1\<lparr>unlink_denied := {''/app/uploads/b.png''}\<rparr>\<rparr>"
  let ?s1 = "snd (handle env0 (DELETE_projects ''p1'') ?s)"
  let ?rs = "[DELETE_projects ''p1'', POST_videos (Some ''https://example.org/w'') (Some ''Tour'')]"
  let ?s2 = "snd (run env0 ?rs ?s)"
  have refs: "map (localPath env0) (image_refs ?s) =
      [''/app/uploads/a.png'', ''/app/uploads/b.png'', ''/app/uploads/d.png'', ''/app/uploads/c.jpg'']"
    by (simp add: image_refs_def example_defs path_defs)
  have "{p. in_upload_dir env0 p \<and> existsSync (disk ?s) p} =
      {''/app/uploads/a.png'', ''/app/uploads/b.png'', ''/app/uploads/d.png'', ''/app/uploads/c.jpg''}"
    by (auto simp: in_upload_dir_def existsSync_def example_defs path_defs split: if_splits)
  with refs have a: "files_consistent env0 ?s"
    unfolding files_consistent_def set_map [symmetric] by simp
  have b: "status (fst (handle env0 (DELETE_projects ''p1'') ?s)) = 500"
    by (simp add: example_defs path_defs fs_defs handler_defs Let_def)
  have "''/app/uploads/a.png'' \<in> localPath env0 ` set (image_refs ?s1)"
    by (simp add: image_refs_def example_defs path_defs fs_defs handler_defs Let_def)
  moreover have "\<not> existsSync (disk ?s1) ''/app/uploads/a.png''"
    by (simp add: example_defs path_defs fs_defs handler_defs Let_def)
  ultimately have c: "\<not> files_consistent env0 ?s1"
    unfolding files_consistent_def by blast
  have d: "map status (fst (run env0 ?rs ?s)) = [500, 201]"
    by (simp add: example_defs path_defs fs_defs handler_defs Let_def)
  have "''/app/uploads/a.png'' \<in> localPath env0 ` set (image_refs ?s2)"
    by (simp add: image_refs_def example_defs path_defs fs_defs handler_defs Let_def)
  moreover have "\<not> existsSync (disk ?s2) ''/app/uploads/a.png''"
    by (simp add: example_defs path_defs fs_defs handler_defs Let_def)
  ultimately have "\<not> files_consistent env0 ?s2"
    unfolding files_consistent_def by blast
  with a b c d show ?thesis
    by simp
qed

text \<open>
  A second way out of the invariant, without any refusal by the file system: from the
  empty state, an Update that carries one file and names an id that no project has. The
  upload middleware stores the file, the handler returns 404 at once, and the file stays
  in the upload directory with no record referring to it, also after the Create of a
  video that follows.
\<close>

theorem update_unknown_id_leaves_orphan:
  "files_consistent env0 state0
   \<and> fresh_names env0
        (PUT_projects ''zz'' None None [\<lparr>originalname = ''pic.png'', bytes = ''P''\<rparr>]) state0
   \<and> handle env0 (PUT_projects ''zz'' None None [\<lparr>originalname = ''pic.png'', bytes = ''P''\<rparr>])
        state0 =
       (Response 404 (Error_body ''Project not found''),
        state0\<lparr>disk := (disk state0)\<lparr>contents := [''/app/uploads/uuid-.png'' \<mapsto> Bytes ''P'']\<rparr>,
               uuid_calls := 1\<rparr>)
   \<and> \<not> files_consistent env0
        (snd (handle env0
           (PUT_projects ''zz'' None None [\<lparr>originalname = ''pic.png'', bytes = ''P''\<rparr>]) state0))
   \<and> map status (fst (run env0
        [PUT_projects ''zz'' None None [\<lparr>originalname = ''pic.png'', bytes = ''P''\<rparr>],
         POST_videos (Some ''https://example.org/w'') (Some ''Tour'')] state0)) = [404, 201]
   \<and> \<not> files_consistent env0 (snd (run env0
        [PUT_projects ''zz'' None None [\<lparr>originalname = ''pic.png'', bytes = ''P''\<rparr>],
         POST_videos (Some ''https://example.org/w'') (Some ''Tour'')] state0))"
proof -
  let ?r = "PUT_projects ''zz'' None None [\<lparr>originalname = ''pic.png'', bytes = ''P''\<rparr>]"
  let ?s1 = "state0\<lparr>disk := (disk state0)\<lparr>contents := [''/app/uploads/uuid-.png'' \<mapsto> Bytes ''P'']\<rparr>,
               uuid_calls := 1\<rparr>"
  let ?rs = "[?r, POST_videos (Some ''https://example.org/w'') (Some ''Tour'')]"
  let ?s2 = "snd (run env0 ?rs state0)"
  have a: "files_consistent env0 state0"
    by (simp add: files_consistent_def image_refs_def state0_def existsSync_def)
  have b: "fresh_names env0 ?r state0"
    by (simp add: fresh_names_def Let_def example_defs path_defs existsSync_def)
  have c: "handle env0 ?r state0 = (Response 404 (Error_body ''Project not found''), ?s1)"
    by (simp add: example_defs path_defs fs_defs handler_defs Let_def)
  have "in_upload_dir env0 ''/app/uploads/uuid-.png''
      \<and> existsSync (disk ?s1) ''/app/uploads/uuid-.png''"
    by (simp add: in_upload_dir_def existsSync_def example_defs path_defs)
  moreover have "image_refs ?s1 = []"
    by (simp add: image_refs_def state0_def)
  ultimately have d: "\<not> files_consistent env0 ?s1"
    by (auto simp: files_consistent_def)
  have e: "map status (fst (run env0 ?rs state0)) = [404, 201]"
    by (simp add: example_defs path_defs fs_defs handler_defs Let_def)
  have "in_upload_dir env0 ''/app/uploads/uuid-.png''
      \<and> existsSync (disk ?s2) ''/app/uploads/uuid-.png''"
    by (simp add: in_upload_dir_def existsSync_def example_defs path_defs fs_defs handler_defs
        Let_def)
  moreover have "image_refs ?s2 = []"
    by (simp add: image_refs_def example_defs path_defs fs_defs handler_defs Let_def)
  ultimately have "\<not> files_consistent env0 ?s2"
    by (auto simp: files_consistent_def)
  with a b c d e show ?thesis
    by simp
qed

text \<open>
  C2, in the form that holds. Let the invariant hold before a request (the image references resolve to
  pairwise different files, which are exactly the files in the upload directory) and let
  the names generated for the uploads of the request be new. Then it holds after the
  request, whenever the answer is not 500 and, if the answer is 404, the request carried
  no files. (What an Update of an unknown id does with its files is left open here.)
\<close>

theorem files_consistent_preserved:
  "files_consistent e s \<and> fresh_names e r s \<and> status (fst (handle e r s)) \<noteq> 500
   \<and> (status (fst (handle e r s)) = 404 \<longrightarrow> uploads_of r = []) \<longrightarrow>
   files_consistent e (snd (handle e r s))"
proof
  assume a: "files_consistent e s \<and> fresh_names e r s \<and> status (fst (handle e r s)) \<noteq> 500
   \<and> (status (fst (handle e r s)) = 404 \<longrightarrow> uploads_of r = [])"
  then have inv: "files_consistent e s" and fresh: "fresh_names e r s"
    by simp_all
  obtain x s1 where rt: "route e r s = (x, s1)"
    by (cases "route e r s")
  then have s1: "snd (handle e r s) = s1"
    by (simp add: snd_handle)
  have ok: "x \<noteq> Inl (FsError y)" for y
    using a rt by (auto simp: handle_def)
  have found: "uploads_of r = []" if "x = Inr resp" "status resp = 404" for resp
    using a rt that by (auto simp: handle_def)
  have "files_consistent e s1"
  proof (cases r)
    case GET_projects
    with rt inv show ?thesis by (auto simp: get_projects_def)
  next
    case GET_carousel_images
    with rt inv show ?thesis by (auto simp: get_carousel_images_def)
  next
    case GET_videos
    with rt inv show ?thesis by (auto simp: get_videos_def)
  next
    case (DELETE_projects i)
    with rt have "delete_projects e i s = (x, s1)" by simp
    from delete_projects_consistent [OF inv this ok] show ?thesis .
  next
    case (DELETE_carousel_images i)
    with rt have "delete_carousel_images e i s = (x, s1)" by simp
    from delete_carousel_images_consistent [OF inv this ok] show ?thesis .
  next
    case (POST_videos u ttl)
    with rt have "post_videos e u ttl s = (x, s1)" by simp
    from post_videos_consistent [OF inv this] show ?thesis .
  next
    case (DELETE_videos i)
    with rt have "delete_videos e i s = (x, s1)" by simp
    from delete_videos_consistent [OF inv this] show ?thesis .
  next
    case (POST_projects ttl descr ups)
    show ?thesis
    proof (cases "5 < length ups")
      case True
      with rt POST_projects have "s1 = s\<lparr>uuid_calls := uuid_calls s + 5\<rparr>"
        by (auto simp: multer_array_def)
      with inv show ?thesis by (simp add: counter_only)
    next
      case False
      obtain fs s0 where ds: "disk_storage e ups s = (fs, s0)"
        by (cases "disk_storage e ups s")
      with False rt POST_projects have res: "post_projects e ttl descr fs s0 = (x, s1)"
        by (simp add: multer_array_def)
      from ds POST_projects have "disk_storage e (uploads_of r) s = (fs, s0)"
        by simp
      from post_projects_consistent [OF inv ds fresh_names_stored [OF fresh this] res ok]
      show ?thesis .
    qed
  next
    case (PUT_projects i ttl descr ups)
    show ?thesis
    proof (cases "5 < length ups")
      case True
      with rt PUT_projects have "s1 = s\<lparr>uuid_calls := uuid_calls s + 5\<rparr>"
        by (auto simp: multer_array_def)
      with inv show ?thesis by (simp add: counter_only)
    next
      case False
      obtain fs s0 where ds: "disk_storage e ups s = (fs, s0)"
        by (cases "disk_storage e ups s")
      with False rt PUT_projects have res: "put_projects e i ttl descr fs s0 = (x, s1)"
        by (simp add: multer_array_def)
      from ds PUT_projects have st: "disk_storage e (uploads_of r) s = (fs, s0)"
        by simp
      have nf: "ups = []" if "x = Inr resp" "status resp = 404" for resp
        using found [OF that] PUT_projects by simp
      from put_projects_consistent [OF inv ds fresh_names_stored [OF fresh st] res ok nf]
      show ?thesis .
    qed
  next
    case (POST_carousel_images ups)
    show ?thesis
    proof (cases "1 < length ups")
      case True
      with rt POST_carousel_images have "s1 = s\<lparr>uuid_calls := uuid_calls s + 1\<rparr>"
        by (auto simp: multer_array_def)
      with inv show ?thesis by (simp add: counter_only)
    next
      case False
      then have one: "length ups \<le> 1" by simp
      obtain fs s0 where ds: "disk_storage e ups s = (fs, s0)"
        by (cases "disk_storage e ups s")
      with False rt POST_carousel_images
      have res: "post_carousel_images e (case fs of [] \<Rightarrow> None | f # x \<Rightarrow> Some f) s0 = (x, s1)"
        by (simp add: multer_array_def)
      from ds POST_carousel_images have st: "disk_storage e (uploads_of r) s = (fs, s0)"
        by simp
      from post_carousel_images_consistent [OF inv ds one fresh_names_stored [OF fresh st] res ok]
      show ?thesis .
    qed
  qed
  with s1 show "files_consistent e (snd (handle e r s))"
    by simp
qed

theorem files_consistent_preserved_witness:
  "files_consistent env0 (snd (handle env0
      (PUT_projects ''p1'' None None [\<lparr>originalname = ''n.png'', bytes = ''N''\<rparr>]) state1))
   \<and> files_consistent env0 (snd (handle env0 (DELETE_projects ''nope'') state1))"
proof -
  let ?put = "PUT_projects ''p1'' None None [\<lparr>originalname = ''n.png'', bytes = ''N''\<rparr>]"
  let ?del = "DELETE_projects ''nope''"
  have refs: "map (localPath env0) (image_refs state1) =
      [''/app/uploads/a.png'', ''/app/uploads/b.png'', ''/app/uploads/d.png'', ''/app/uploads/c.jpg'']"
    by (simp add: image_refs_def example_defs path_defs)
  have "{p. in_upload_dir env0 p \<and> existsSync (disk state1) p} =
      {''/app/uploads/a.png'', ''/app/uploads/b.png'', ''/app/uploads/d.png'', ''/app/uploads/c.jpg''}"
    by (auto simp: in_upload_dir_def existsSync_def example_defs path_defs split: if_splits)
  with refs have inv: "files_consistent env0 state1"
    unfolding files_consistent_def set_map [symmetric] by simp
  have f1: "fresh_names env0 ?put state1"
    by (simp add: fresh_names_def Let_def example_defs path_defs existsSync_def)
  have f2: "fresh_names env0 ?del state1"
    by (simp add: fresh_names_def Let_def)
  have st1: "status (fst (handle env0 ?put state1)) = 200"
    by (simp add: example_defs path_defs fs_defs handler_defs Let_def)
  have st2: "status (fst (handle env0 ?del state1)) = 404 \<and> uploads_of ?del = []"
    by (simp add: example_defs handler_defs)
  from files_consistent_preserved [of env0 state1 ?put] inv f1 st1
    files_consistent_preserved [of env0 state1 ?del] f2 st2
  show ?thesis by simp
qed

end
